theory Spec2Isabelle
  imports Complex_Main "HOL-Library.Multiset"
begin

section \<open>Single-precision values and their arithmetic\<close>

text \<open>
  A C++ \<^verbatim>\<open>float\<close> is one of: a finite value, plus or minus infinity, or a NaN.
  A finite value is represented by the real number it denotes. Every arithmetic
  operation of the source computes the exact real result of its finite operands and
  hands it to the rounding function \<open>rnd\<close> of the machine, which returns the
  \<^verbatim>\<open>float\<close> that is stored (possibly an infinity on overflow). The rounding
  function is a parameter of every definition below: nothing is assumed about it in a
  definition, and a theorem that needs a property of it (monotonicity, exactness on
  values that are already representable, symmetry) says so through
  \<open>monotone_rounding\<close>, \<open>idempotent_rounding\<close> or \<open>symmetric_rounding\<close>. The rules
  for infinities and NaN are those of IEEE 754.
  The two zeros of IEEE 754 compare equal and are both \<open>Fin 0\<close>; a division by zero
  takes the divisor as the positive zero. Every operation rounds once, to single
  precision (no wider intermediate results, no fused multiply-add), and the library
  functions \<^verbatim>\<open>sqrt\<close> and \<^verbatim>\<open>sin\<close> return the rounded exact value.
\<close>

datatype fl = Fin real | PInf | NInf | NaN

type_synonym rounding = "real \<Rightarrow> fl"

fun fneg :: "fl \<Rightarrow> fl" where
  "fneg (Fin a) = Fin (- a)"
| "fneg PInf = NInf"
| "fneg NInf = PInf"
| "fneg NaN = NaN"

fun fadd :: "rounding \<Rightarrow> fl \<Rightarrow> fl \<Rightarrow> fl" where
  "fadd rnd (Fin a) (Fin b) = rnd (a + b)"
| "fadd rnd NaN _ = NaN"
| "fadd rnd _ NaN = NaN"
| "fadd rnd PInf NInf = NaN"
| "fadd rnd NInf PInf = NaN"
| "fadd rnd PInf _ = PInf"
| "fadd rnd _ PInf = PInf"
| "fadd rnd NInf _ = NInf"
| "fadd rnd _ NInf = NInf"

fun fsub :: "rounding \<Rightarrow> fl \<Rightarrow> fl \<Rightarrow> fl" where
  "fsub rnd (Fin a) (Fin b) = rnd (a - b)"
| "fsub rnd NaN _ = NaN"
| "fsub rnd _ NaN = NaN"
| "fsub rnd PInf PInf = NaN"
| "fsub rnd NInf NInf = NaN"
| "fsub rnd PInf _ = PInf"
| "fsub rnd _ NInf = PInf"
| "fsub rnd NInf _ = NInf"
| "fsub rnd _ PInf = NInf"

text \<open>The sign of a product or quotient with an infinite operand.\<close>

definition signed_inf :: "bool \<Rightarrow> fl" where
  "signed_inf negative = (if negative then NInf else PInf)"

fun fmul :: "rounding \<Rightarrow> fl \<Rightarrow> fl \<Rightarrow> fl" where
  "fmul rnd (Fin a) (Fin b) = rnd (a * b)"
| "fmul rnd NaN _ = NaN"
| "fmul rnd _ NaN = NaN"
| "fmul rnd (Fin a) PInf = (if a = 0 then NaN else signed_inf (a < 0))"
| "fmul rnd (Fin a) NInf = (if a = 0 then NaN else signed_inf (0 < a))"
| "fmul rnd PInf (Fin b) = (if b = 0 then NaN else signed_inf (b < 0))"
| "fmul rnd NInf (Fin b) = (if b = 0 then NaN else signed_inf (0 < b))"
| "fmul rnd PInf PInf = PInf"
| "fmul rnd NInf NInf = PInf"
| "fmul rnd PInf NInf = NInf"
| "fmul rnd NInf PInf = NInf"

fun fdiv :: "rounding \<Rightarrow> fl \<Rightarrow> fl \<Rightarrow> fl" where
  "fdiv rnd (Fin a) (Fin b) =
     (if b = 0 then (if a = 0 then NaN else signed_inf (a < 0)) else rnd (a / b))"
| "fdiv rnd NaN _ = NaN"
| "fdiv rnd _ NaN = NaN"
| "fdiv rnd (Fin a) PInf = Fin 0"
| "fdiv rnd (Fin a) NInf = Fin 0"
| "fdiv rnd PInf (Fin b) = signed_inf (b < 0)"
| "fdiv rnd NInf (Fin b) = signed_inf (0 \<le> b)"
| "fdiv rnd _ _ = NaN"

fun fsqrt :: "rounding \<Rightarrow> fl \<Rightarrow> fl" where
  "fsqrt rnd (Fin a) = (if a < 0 then NaN else rnd (sqrt a))"
| "fsqrt rnd PInf = PInf"
| "fsqrt rnd NInf = NaN"
| "fsqrt rnd NaN = NaN"

fun fsin :: "rounding \<Rightarrow> fl \<Rightarrow> fl" where
  "fsin rnd (Fin a) = rnd (sin a)"
| "fsin rnd _ = NaN"

text \<open>Comparisons: every comparison with a NaN is false.\<close>

fun flt :: "fl \<Rightarrow> fl \<Rightarrow> bool" where
  "flt (Fin a) (Fin b) = (a < b)"
| "flt NaN _ = False"
| "flt _ NaN = False"
| "flt _ NInf = False"
| "flt PInf _ = False"
| "flt NInf _ = True"
| "flt _ PInf = True"

fun fle :: "fl \<Rightarrow> fl \<Rightarrow> bool" where
  "fle (Fin a) (Fin b) = (a \<le> b)"
| "fle NaN _ = False"
| "fle _ NaN = False"
| "fle NInf _ = True"
| "fle _ PInf = True"
| "fle _ NInf = False"
| "fle PInf _ = False"

text \<open>\<^verbatim>\<open>math.hpp\<close>: min, max, clamp, smoothstep and the constants.\<close>

definition min_f :: "fl \<Rightarrow> fl \<Rightarrow> fl" where
  "min_f lhs rhs = (if fle lhs rhs then lhs else rhs)"

definition max_f :: "fl \<Rightarrow> fl \<Rightarrow> fl" where
  "max_f lhs rhs = (if fle rhs lhs then lhs else rhs)"

definition clamp :: "fl \<Rightarrow> fl \<Rightarrow> fl \<Rightarrow> fl" where
  "clamp arg minVal maxVal = max_f (min_f arg maxVal) minVal"

definition smoothstepCubic :: "rounding \<Rightarrow> fl \<Rightarrow> fl" where
  "smoothstepCubic rnd a =
     fmul rnd (fmul rnd a a) (fsub rnd (Fin 3) (fmul rnd (Fin 2) a))"

definition smoothstep :: "rounding \<Rightarrow> fl \<Rightarrow> fl \<Rightarrow> fl \<Rightarrow> fl" where
  "smoothstep rnd edge0 edge1 a =
     (let b = clamp (fdiv rnd (fsub rnd a edge0) (fsub rnd edge1 edge0)) (Fin 0) (Fin 1)
      in smoothstepCubic rnd b)"

text \<open>
  The literals \<^verbatim>\<open>0.0001f\<close> and the decimal expansion of pi are not binary
  fractions: the constant the program holds is the literal, rounded.
\<close>

definition EPSILON :: "rounding \<Rightarrow> fl" where
  "EPSILON rnd = rnd (1 / 10000)"

definition INFINITY :: fl where
  "INFINITY = PInf"

definition pi_literal :: real where
  "pi_literal = 314159265358979323846264338327950288 / 10 ^ 35"

definition PI :: "rounding \<Rightarrow> fl" where
  "PI rnd = rnd pi_literal"

definition INV_PI :: "rounding \<Rightarrow> fl" where
  "INV_PI rnd = fdiv rnd (Fin 1) (PI rnd)"

text \<open>
  What a theorem may ask of the rounding function. IEEE 754 rounding in every mode is
  monotone, never produces a NaN from a real, and rounds zero to zero; a value that
  is already a \<^verbatim>\<open>float\<close> rounds to itself; and rounding to nearest treats a
  number and its negation alike. The rounding \<open>binary32\<close> defined next has the three
  properties, as does the exact arithmetic \<open>Fin\<close>.
\<close>

definition monotone_rounding :: "rounding \<Rightarrow> bool" where
  "monotone_rounding rnd \<longleftrightarrow> rnd 0 = Fin 0 \<and> (\<forall>a b. a \<le> b \<longrightarrow> fle (rnd a) (rnd b))"

definition idempotent_rounding :: "rounding \<Rightarrow> bool" where
  "idempotent_rounding rnd \<longleftrightarrow> (\<forall>a b. rnd a = Fin b \<longrightarrow> rnd b = Fin b)"

definition symmetric_rounding :: "rounding \<Rightarrow> bool" where
  "symmetric_rounding rnd \<longleftrightarrow> (\<forall>a. rnd (- a) = fneg (rnd a))"

text \<open>
  The rounding of the \<^verbatim>\<open>float\<close> type itself: to the nearest number of the binary32
  format, ties to the even significand. A number of magnitude in \<open>[2^e, 2^(e+1))\<close> is
  rounded to a multiple of \<open>2^(e-23)\<close> (24 significant bits); the exponent \<open>e\<close> is at
  least \<open>-126\<close> (below that the numbers are subnormal, multiples of \<open>2^(-149)\<close>), and
  a result of magnitude \<open>2^128\<close> or more overflows to an infinity.
\<close>

definition pow2 :: "int \<Rightarrow> real" where
  "pow2 e = (if 0 \<le> e then 2 ^ nat e else 1 / 2 ^ nat (- e))"

definition nearest_even :: "real \<Rightarrow> int" where
  "nearest_even a =
     (let f = \<lfloor>a\<rfloor>
      in if a - of_int f < 1 / 2 then f
         else if 1 / 2 < a - of_int f then f + 1
         else if even f then f else f + 1)"

definition exponent32 :: "real \<Rightarrow> int" where
  "exponent32 a = max \<lfloor>log 2 \<bar>a\<bar>\<rfloor> (- 126)"

definition nearest32 :: "real \<Rightarrow> real" where
  "nearest32 a =
     (let ulp = pow2 (exponent32 a - 23)
      in of_int (nearest_even (a / ulp)) * ulp)"

definition binary32 :: rounding where
  "binary32 a =
     (if a = 0 then Fin 0
      else if 2 ^ 128 \<le> \<bar>nearest32 a\<bar> then (if a < 0 then NInf else PInf)
      else Fin (nearest32 a))"

section \<open>Vectors (\<^verbatim>\<open>math/vec.hpp\<close>)\<close>

record vec3 =
  vx :: fl
  vy :: fl
  vz :: fl

definition vec3_of :: "fl \<Rightarrow> vec3" where
  "vec3_of scalar = \<lparr>vx = scalar, vy = scalar, vz = scalar\<rparr>"

definition vneg :: "vec3 \<Rightarrow> vec3" where
  "vneg arg = \<lparr>vx = fneg (vx arg), vy = fneg (vy arg), vz = fneg (vz arg)\<rparr>"

definition vadd :: "rounding \<Rightarrow> vec3 \<Rightarrow> vec3 \<Rightarrow> vec3" where
  "vadd rnd lhs rhs =
     \<lparr>vx = fadd rnd (vx lhs) (vx rhs), vy = fadd rnd (vy lhs) (vy rhs),
      vz = fadd rnd (vz lhs) (vz rhs)\<rparr>"

definition vsub :: "rounding \<Rightarrow> vec3 \<Rightarrow> vec3 \<Rightarrow> vec3" where
  "vsub rnd lhs rhs =
     \<lparr>vx = fsub rnd (vx lhs) (vx rhs), vy = fsub rnd (vy lhs) (vy rhs),
      vz = fsub rnd (vz lhs) (vz rhs)\<rparr>"

text \<open>Componentwise product \<^verbatim>\<open>vec3 * vec3\<close>.\<close>

definition vmul :: "rounding \<Rightarrow> vec3 \<Rightarrow> vec3 \<Rightarrow> vec3" where
  "vmul rnd lhs rhs =
     \<lparr>vx = fmul rnd (vx lhs) (vx rhs), vy = fmul rnd (vy lhs) (vy rhs),
      vz = fmul rnd (vz lhs) (vz rhs)\<rparr>"

text \<open>\<^verbatim>\<open>vec3 * float\<close> and \<^verbatim>\<open>float * vec3\<close>.\<close>

definition vscale :: "rounding \<Rightarrow> vec3 \<Rightarrow> fl \<Rightarrow> vec3" where
  "vscale rnd lhs rhs =
     \<lparr>vx = fmul rnd (vx lhs) rhs, vy = fmul rnd (vy lhs) rhs, vz = fmul rnd (vz lhs) rhs\<rparr>"

definition scalev :: "rounding \<Rightarrow> fl \<Rightarrow> vec3 \<Rightarrow> vec3" where
  "scalev rnd lhs rhs =
     \<lparr>vx = fmul rnd lhs (vx rhs), vy = fmul rnd lhs (vy rhs), vz = fmul rnd lhs (vz rhs)\<rparr>"

text \<open>\<^verbatim>\<open>vec3 / float\<close> multiplies by the rounded reciprocal.\<close>

definition vdivs :: "rounding \<Rightarrow> vec3 \<Rightarrow> fl \<Rightarrow> vec3" where
  "vdivs rnd lhs rhs =
     (let invRhs = fdiv rnd (Fin 1) rhs
      in \<lparr>vx = fmul rnd (vx lhs) invRhs, vy = fmul rnd (vy lhs) invRhs,
          vz = fmul rnd (vz lhs) invRhs\<rparr>)"

definition dot :: "rounding \<Rightarrow> vec3 \<Rightarrow> vec3 \<Rightarrow> fl" where
  "dot rnd lhs rhs =
     fadd rnd (fadd rnd (fmul rnd (vx lhs) (vx rhs)) (fmul rnd (vy lhs) (vy rhs)))
       (fmul rnd (vz lhs) (vz rhs))"

definition lengthSquared :: "rounding \<Rightarrow> vec3 \<Rightarrow> fl" where
  "lengthSquared rnd arg = dot rnd arg arg"

definition length_v :: "rounding \<Rightarrow> vec3 \<Rightarrow> fl" where
  "length_v rnd arg = fsqrt rnd (lengthSquared rnd arg)"

text \<open>The vector with the given finite components.\<close>

definition rgb :: "real \<Rightarrow> real \<Rightarrow> real \<Rightarrow> vec3" where
  "rgb a b c = \<lparr>vx = Fin a, vy = Fin b, vz = Fin c\<rparr>"

section \<open>Rays and intersection records\<close>

record Ray =
  ray_o :: vec3
  ray_d :: vec3

definition ray_at :: "rounding \<Rightarrow> Ray \<Rightarrow> fl \<Rightarrow> vec3" where
  "ray_at rnd ray t = vadd rnd (ray_o ray) (scalev rnd t (ray_d ray))"

record Intersection =
  dist :: fl
  pos :: vec3
  normal :: vec3
  color :: vec3

definition noIntersection :: Intersection where
  "noIntersection =
     \<lparr>dist = INFINITY, pos = vec3_of (Fin 0), normal = vec3_of (Fin 0),
      color = vec3_of (Fin 0)\<rparr>"

definition valid :: "Intersection \<Rightarrow> bool" where
  "valid intersection = flt (dist intersection) INFINITY"

section \<open>Spheres (\<^verbatim>\<open>sphere.hpp\<close>)\<close>

record Sphere =
  sph_origin :: vec3
  sph_radius :: fl
  sph_color :: vec3

definition Sphere_normal :: "rounding \<Rightarrow> Sphere \<Rightarrow> vec3 \<Rightarrow> vec3" where
  "Sphere_normal rnd s p = vdivs rnd (vsub rnd p (sph_origin s)) (sph_radius s)"

text \<open>The quantities both tests compute first: \<open>b\<close> and the discriminant \<open>d\<close>.\<close>

definition sphere_b :: "rounding \<Rightarrow> Sphere \<Rightarrow> Ray \<Rightarrow> fl" where
  "sphere_b rnd s ray = dot rnd (ray_d ray) (vsub rnd (sph_origin s) (ray_o ray))"

definition sphere_d :: "rounding \<Rightarrow> Sphere \<Rightarrow> Ray \<Rightarrow> fl" where
  "sphere_d rnd s ray =
     (let oPos = vsub rnd (sph_origin s) (ray_o ray);
          b = dot rnd (ray_d ray) oPos;
          c = fsub rnd (dot rnd oPos oPos) (fmul rnd (sph_radius s) (sph_radius s))
      in fsub rnd (fmul rnd b b) c)"

definition Sphere_intersect :: "rounding \<Rightarrow> Sphere \<Rightarrow> Ray \<Rightarrow> fl \<Rightarrow> fl \<Rightarrow> Intersection" where
  "Sphere_intersect rnd s ray minT maxT =
     (let oPos = vsub rnd (sph_origin s) (ray_o ray);
          b = dot rnd (ray_d ray) oPos;
          c = fsub rnd (dot rnd oPos oPos) (fmul rnd (sph_radius s) (sph_radius s));
          d = fsub rnd (fmul rnd b b) c
      in if fle d (Fin 0) then noIntersection
         else
           let sqrtD = fsqrt rnd d;
               t1 = fsub rnd b sqrtD
           in if flt minT t1 \<and> flt t1 maxT then
                (let p = ray_at rnd ray t1
                 in \<lparr>dist = t1, pos = p, normal = Sphere_normal rnd s p, color = sph_color s\<rparr>)
              else
                let t2 = fadd rnd b sqrtD
                in if flt minT t2 \<and> flt t2 maxT then
                     (let p = ray_at rnd ray t2
                      in \<lparr>dist = t2, pos = p, normal = Sphere_normal rnd s p,
                          color = sph_color s\<rparr>)
                   else noIntersection)"

definition Sphere_intersectAny :: "rounding \<Rightarrow> Sphere \<Rightarrow> Ray \<Rightarrow> fl \<Rightarrow> fl \<Rightarrow> bool" where
  "Sphere_intersectAny rnd s ray minT maxT =
     (let oPos = vsub rnd (sph_origin s) (ray_o ray);
          b = dot rnd (ray_d ray) oPos;
          c = fsub rnd (dot rnd oPos oPos) (fmul rnd (sph_radius s) (sph_radius s));
          d = fsub rnd (fmul rnd b b) c;
          sqrtD = fsqrt rnd d;
          t1 = fsub rnd b sqrtD;
          t2 = fadd rnd b sqrtD
      in flt (Fin 0) d \<and> ((flt minT t1 \<and> flt t1 maxT) \<or> (flt minT t2 \<and> flt t2 maxT)))"

section \<open>Lights (\<^verbatim>\<open>light.hpp\<close>)\<close>

record LightSample =
  radiance :: vec3
  direction :: vec3
  distanceToLight :: fl

record AmbientLight =
  amb_radiance :: vec3

record PointLight =
  pl_intensity :: vec3
  pl_origin :: vec3

record DirectionalLight =
  dl_radiosity :: vec3
  dl_direction :: vec3

record ConeLight =
  cone_intensity :: vec3
  cone_origin :: vec3
  cone_direction :: vec3
  cosPhi :: fl

record CylinderLight =
  cyl_radiosity :: vec3
  cyl_origin :: vec3
  cyl_direction :: vec3
  cyl_radius :: fl

definition AmbientLight_sampleRadiance :: "AmbientLight \<Rightarrow> vec3 \<Rightarrow> LightSample" where
  "AmbientLight_sampleRadiance light p =
     \<lparr>radiance = amb_radiance light, direction = vec3_of (Fin 0), distanceToLight = Fin 0\<rparr>"

definition PointLight_sampleRadiance :: "rounding \<Rightarrow> PointLight \<Rightarrow> vec3 \<Rightarrow> LightSample" where
  "PointLight_sampleRadiance rnd light p =
     (let posToLight = vsub rnd (pl_origin light) p;
          distanceToLight = length_v rnd posToLight;
          posToLight = vdivs rnd posToLight distanceToLight;
          squaredDistanceToLight = fmul rnd distanceToLight distanceToLight
      in \<lparr>radiance = vdivs rnd (pl_intensity light) squaredDistanceToLight,
          direction = posToLight,
          distanceToLight = distanceToLight\<rparr>)"

definition DirectionalLight_sampleRadiance :: "DirectionalLight \<Rightarrow> vec3 \<Rightarrow> LightSample" where
  "DirectionalLight_sampleRadiance light p =
     \<lparr>radiance = dl_radiosity light, direction = vneg (dl_direction light),
      distanceToLight = INFINITY\<rparr>"

definition ConeLight_sampleRadiance :: "rounding \<Rightarrow> ConeLight \<Rightarrow> vec3 \<Rightarrow> LightSample" where
  "ConeLight_sampleRadiance rnd light p =
     (let pointLight = \<lparr>pl_intensity = cone_intensity light, pl_origin = cone_origin light\<rparr>;
          lightSample = PointLight_sampleRadiance rnd pointLight p;
          cosLightCone = fneg (dot rnd (direction lightSample) (cone_direction light));
          att = smoothstep rnd (cosPhi light) (Fin 1) cosLightCone;
          tex = fadd rnd (Fin (1 / 2))
                  (fmul rnd (Fin (1 / 2)) (fsin rnd (fmul rnd (Fin 200) cosLightCone)))
      in lightSample\<lparr>radiance := vscale rnd (radiance lightSample) (fmul rnd att tex)\<rparr>)"

definition CylinderLight_sampleRadiance :: "rounding \<Rightarrow> CylinderLight \<Rightarrow> vec3 \<Rightarrow> LightSample" where
  "CylinderLight_sampleRadiance rnd light p =
     (let directionalLight =
            \<lparr>dl_radiosity = cyl_radiosity light, dl_direction = cyl_direction light\<rparr>;
          lightSample = DirectionalLight_sampleRadiance directionalLight p;
          lightToPos = vsub rnd p (cyl_origin light);
          projOnLightDir =
            scalev rnd (dot rnd lightToPos (cyl_direction light)) (cyl_direction light);
          projOnLightPlane = vsub rnd lightToPos projOnLightDir;
          magnitudeProjectedVector = length_v rnd projOnLightPlane;
          att = smoothstep rnd (Fin 0) (Fin 1)
                  (fsub rnd (cyl_radius light) magnitudeProjectedVector);
          tex = fadd rnd (Fin (1 / 2))
                  (fmul rnd (Fin (1 / 2))
                     (fsin rnd (fmul rnd (Fin 15) magnitudeProjectedVector)))
      in lightSample\<lparr>radiance := vscale rnd (radiance lightSample) (fmul rnd tex att)\<rparr>)"

section \<open>The scene (\<^verbatim>\<open>scene.hpp\<close>)\<close>

record Scene =
  spheres :: "Sphere list"
  ambientLight :: AmbientLight
  pointLights :: "PointLight list"
  directionalLights :: "DirectionalLight list"
  coneLights :: "ConeLight list"
  cylinderLights :: "CylinderLight list"

text \<open>One turn of the loop of \<^verbatim>\<open>Scene::intersect\<close>, and the loop.\<close>

definition scene_step :: "rounding \<Rightarrow> Ray \<Rightarrow> fl \<Rightarrow> Intersection \<Rightarrow> Sphere \<Rightarrow> Intersection" where
  "scene_step rnd ray minT result s =
     (let temp = Sphere_intersect rnd s ray minT (dist result)
      in if flt (dist temp) (dist result) then temp else result)"

definition Scene_intersect :: "rounding \<Rightarrow> Scene \<Rightarrow> Ray \<Rightarrow> fl \<Rightarrow> fl \<Rightarrow> Intersection" where
  "Scene_intersect rnd scene ray minT maxT =
     (let result = foldl (scene_step rnd ray minT) (noIntersection\<lparr>dist := maxT\<rparr>)
                     (spheres scene)
      in if flt (dist result) maxT then result else noIntersection)"

fun any_sphere :: "rounding \<Rightarrow> Sphere list \<Rightarrow> Ray \<Rightarrow> fl \<Rightarrow> fl \<Rightarrow> bool" where
  "any_sphere rnd [] ray minT maxT = False"
| "any_sphere rnd (s # ss) ray minT maxT =
     (if Sphere_intersectAny rnd s ray minT maxT then True
      else any_sphere rnd ss ray minT maxT)"

definition Scene_intersectAny :: "rounding \<Rightarrow> Scene \<Rightarrow> Ray \<Rightarrow> fl \<Rightarrow> fl \<Rightarrow> bool" where
  "Scene_intersectAny rnd scene ray minT maxT = any_sphere rnd (spheres scene) ray minT maxT"

section \<open>Integrators (\<^verbatim>\<open>integrator.hpp\<close>)\<close>

text \<open>
  The normal of a hit, turned to face the origin of the ray: the source keeps it when
  the cosine with the ray direction is below zero and negates it otherwise.
\<close>

definition facing_normal :: "rounding \<Rightarrow> Ray \<Rightarrow> Intersection \<Rightarrow> vec3" where
  "facing_normal rnd ray intersection =
     (let cosRayNormal = dot rnd (ray_d ray) (normal intersection)
      in if flt cosRayNormal (Fin 0) then normal intersection
         else vneg (normal intersection))"

text \<open>
  \<^verbatim>\<open>TransparencyIntegrator::radiance\<close>: the loop \<^verbatim>\<open>for (i = 0; i < 11; ++i)\<close>
  with the number of iterations that remain as its first argument.
\<close>

fun transparency_loop :: "rounding \<Rightarrow> Scene \<Rightarrow> nat \<Rightarrow> vec3 \<Rightarrow> Ray \<Rightarrow> vec3" where
  "transparency_loop rnd scene 0 col ray = vec3_of (Fin 0)"
| "transparency_loop rnd scene (Suc n) col ray =
     (let intersection = Scene_intersect rnd scene ray (Fin 0) INFINITY
      in if \<not> valid intersection then col
         else
           let nrm = facing_normal rnd ray intersection;
               col' = vmul rnd col (color intersection)
           in transparency_loop rnd scene n col'
                \<lparr>ray_o = vsub rnd (pos intersection) (scalev rnd (EPSILON rnd) nrm),
                 ray_d = ray_d ray\<rparr>)"

definition Transparency_radiance :: "rounding \<Rightarrow> Scene \<Rightarrow> Ray \<Rightarrow> vec3" where
  "Transparency_radiance rnd scene r = transparency_loop rnd scene 11 (vec3_of (Fin 1)) r"

text \<open>
  The body the four light loops of \<^verbatim>\<open>DiffuseLocalDirectIlluminationIntegrator\<close>
  share, given the sample of the light: \<^verbatim>\<open>color += albedo * radiance * cosLambert * visibility\<close>
  with \<^verbatim>\<open>visibility = 1.0f\<close>.
\<close>

definition local_light :: "rounding \<Rightarrow> vec3 \<Rightarrow> vec3 \<Rightarrow> vec3 \<Rightarrow> LightSample \<Rightarrow> vec3" where
  "local_light rnd albedo nrm col lightSample =
     (let cosLambert = max_f (Fin 0) (dot rnd nrm (direction lightSample));
          visibility = Fin 1
      in vadd rnd col
           (vscale rnd (vscale rnd (vmul rnd albedo (radiance lightSample)) cosLambert)
              visibility))"

definition DiffuseLocal_radiance :: "rounding \<Rightarrow> Scene \<Rightarrow> Ray \<Rightarrow> vec3" where
  "DiffuseLocal_radiance rnd scene ray =
     (let intersection = Scene_intersect rnd scene ray (Fin 0) INFINITY
      in if \<not> valid intersection then vec3_of (Fin 0)
         else
           let col = vec3_of (Fin 0);
               p = pos intersection;
               albedo = vscale rnd (color intersection) (INV_PI rnd);
               nrm = facing_normal rnd ray intersection;
               col = vadd rnd col
                       (vmul rnd (scalev rnd (PI rnd) albedo)
                          (radiance (AmbientLight_sampleRadiance (ambientLight scene) p)));
               col = foldl (\<lambda>c light.
                       local_light rnd albedo nrm c (PointLight_sampleRadiance rnd light p))
                       col (pointLights scene);
               col = foldl (\<lambda>c light.
                       local_light rnd albedo nrm c (DirectionalLight_sampleRadiance light p))
                       col (directionalLights scene);
               col = foldl (\<lambda>c light.
                       local_light rnd albedo nrm c (ConeLight_sampleRadiance rnd light p))
                       col (coneLights scene);
               col = foldl (\<lambda>c light.
                       local_light rnd albedo nrm c (CylinderLight_sampleRadiance rnd light p))
                       col (cylinderLights scene)
           in col)"

text \<open>
  The body of the light loops of \<^verbatim>\<open>DiffuseDirectIlluminationIntegrator\<close>: the
  visibility is \<^verbatim>\<open>float(!intersectAny(scene, shadowRay, 0.0f, distanceToLight))\<close>.
\<close>

definition direct_light ::
  "rounding \<Rightarrow> Scene \<Rightarrow> vec3 \<Rightarrow> vec3 \<Rightarrow> vec3 \<Rightarrow> vec3 \<Rightarrow> LightSample \<Rightarrow> vec3" where
  "direct_light rnd scene albedo nrm p col lightSample =
     (let cosLambert = max_f (Fin 0) (dot rnd nrm (direction lightSample));
          shadowRay = \<lparr>ray_o = p, ray_d = direction lightSample\<rparr>;
          visibility =
            (if Scene_intersectAny rnd scene shadowRay (Fin 0) (distanceToLight lightSample)
             then Fin 0 else Fin 1)
      in vadd rnd col
           (vscale rnd (vscale rnd (vmul rnd albedo (radiance lightSample)) cosLambert)
              visibility))"

definition DiffuseDirect_radiance :: "rounding \<Rightarrow> Scene \<Rightarrow> Ray \<Rightarrow> vec3" where
  "DiffuseDirect_radiance rnd scene ray =
     (let intersection = Scene_intersect rnd scene ray (Fin 0) INFINITY
      in if \<not> valid intersection then vec3_of (Fin 0)
         else
           let col = vec3_of (Fin 0);
               albedo = vscale rnd (color intersection) (INV_PI rnd);
               nrm = facing_normal rnd ray intersection;
               p = vadd rnd (pos intersection) (scalev rnd (EPSILON rnd) nrm);
               col = vadd rnd col
                       (vmul rnd (scalev rnd (PI rnd) albedo)
                          (radiance (AmbientLight_sampleRadiance (ambientLight scene)
                             (pos intersection))));
               col = foldl (\<lambda>c light.
                       direct_light rnd scene albedo nrm p c
                         (PointLight_sampleRadiance rnd light p))
                       col (pointLights scene);
               col = foldl (\<lambda>c light.
                       direct_light rnd scene albedo nrm p c
                         (DirectionalLight_sampleRadiance light p))
                       col (directionalLights scene);
               col = foldl (\<lambda>c light.
                       direct_light rnd scene albedo nrm p c
                         (ConeLight_sampleRadiance rnd light p))
                       col (coneLights scene);
               col = foldl (\<lambda>c light.
                       direct_light rnd scene albedo nrm p c
                         (CylinderLight_sampleRadiance rnd light p))
                       col (cylinderLights scene)
           in col)"

section \<open>The vocabulary of the specification\<close>

text \<open>
  The two roots of the quadratic, the open interval of a query, and the record a hit at
  parameter \<open>t\<close> is specified to carry: position \<open>origin + t * direction\<close>, normal
  \<open>(position - center) / radius\<close>, and the albedo of the sphere.
\<close>

definition sphere_t1 :: "rounding \<Rightarrow> Sphere \<Rightarrow> Ray \<Rightarrow> fl" where
  "sphere_t1 rnd s ray = fsub rnd (sphere_b rnd s ray) (fsqrt rnd (sphere_d rnd s ray))"

definition sphere_t2 :: "rounding \<Rightarrow> Sphere \<Rightarrow> Ray \<Rightarrow> fl" where
  "sphere_t2 rnd s ray = fadd rnd (sphere_b rnd s ray) (fsqrt rnd (sphere_d rnd s ray))"

definition inside :: "fl \<Rightarrow> fl \<Rightarrow> fl \<Rightarrow> bool" where
  "inside minT maxT t \<longleftrightarrow> flt minT t \<and> flt t maxT"

definition sphere_hit :: "rounding \<Rightarrow> Sphere \<Rightarrow> Ray \<Rightarrow> fl \<Rightarrow> Intersection" where
  "sphere_hit rnd s ray t =
     (let position = vadd rnd (ray_o ray) (scalev rnd t (ray_d ray))
      in \<lparr>dist = t, pos = position,
          normal = vdivs rnd (vsub rnd position (sph_origin s)) (sph_radius s),
          color = sph_color s\<rparr>)"

text \<open>
  The scan of \<^verbatim>\<open>Scene::intersect\<close> without the narrowing: every sphere is
  queried with the bounds of the caller, and a hit replaces the best one when it is
  strictly nearer.
\<close>

definition plain_step :: "rounding \<Rightarrow> Ray \<Rightarrow> fl \<Rightarrow> fl \<Rightarrow> Intersection \<Rightarrow> Sphere \<Rightarrow> Intersection" where
  "plain_step rnd ray minT maxT result s =
     (let temp = Sphere_intersect rnd s ray minT maxT
      in if flt (dist temp) (dist result) then temp else result)"

definition Scene_intersect_plain :: "rounding \<Rightarrow> Scene \<Rightarrow> Ray \<Rightarrow> fl \<Rightarrow> fl \<Rightarrow> Intersection" where
  "Scene_intersect_plain rnd scene ray minT maxT =
     (let result = foldl (plain_step rnd ray minT maxT) (noIntersection\<lparr>dist := maxT\<rparr>)
                     (spheres scene)
      in if flt (dist result) maxT then result else noIntersection)"

text \<open>
  The parameters at which a ray meets a sphere (both roots, when the discriminant is
  positive), and all the parameters inside \<open>(minT, maxT)\<close> at which it meets a sphere
  of the scene.
\<close>

definition sphere_roots :: "rounding \<Rightarrow> Sphere \<Rightarrow> Ray \<Rightarrow> fl list" where
  "sphere_roots rnd s ray =
     (if flt (Fin 0) (sphere_d rnd s ray) then [sphere_t1 rnd s ray, sphere_t2 rnd s ray]
      else [])"

definition scene_hits :: "rounding \<Rightarrow> Scene \<Rightarrow> Ray \<Rightarrow> fl \<Rightarrow> fl \<Rightarrow> fl list" where
  "scene_hits rnd scene ray minT maxT =
     concat (map (\<lambda>s. filter (inside minT maxT) (sphere_roots rnd s ray)) (spheres scene))"

text \<open>
  The transparency integrator, segment by segment. A normal is oriented against a ray
  of direction \<open>d\<close> when it is kept if its cosine with \<open>d\<close> is below zero and negated
  otherwise. A state is the accumulated colour and the ray of the segment; \<open>advance\<close>
  crosses the nearest surface: the colour is multiplied componentwise by the albedo of
  the hit, and the next ray starts at \<open>hitPosition - EPSILON * orientedNormal\<close> with
  the same direction. \<open>segment k\<close> is the state after \<open>k\<close> crossings of the primary
  ray \<open>r\<close>, starting from colour \<open>(1,1,1)\<close>; \<open>segment_hit k\<close> is the nearest hit of
  the ray of segment \<open>k\<close> in \<open>(0, infinity)\<close>, and \<open>escapes k\<close> says that there is
  none.
\<close>

definition against_ray :: "rounding \<Rightarrow> vec3 \<Rightarrow> vec3 \<Rightarrow> vec3" where
  "against_ray rnd d n = (if flt (dot rnd d n) (Fin 0) then n else vneg n)"

definition advance :: "rounding \<Rightarrow> Scene \<Rightarrow> vec3 \<times> Ray \<Rightarrow> vec3 \<times> Ray" where
  "advance rnd scene st =
     (let nearest = Scene_intersect rnd scene (snd st) (Fin 0) INFINITY;
          orientedNormal = against_ray rnd (ray_d (snd st)) (normal nearest)
      in (vmul rnd (fst st) (color nearest),
          \<lparr>ray_o = vsub rnd (pos nearest) (scalev rnd (EPSILON rnd) orientedNormal),
           ray_d = ray_d (snd st)\<rparr>))"

definition segment :: "rounding \<Rightarrow> Scene \<Rightarrow> Ray \<Rightarrow> nat \<Rightarrow> vec3 \<times> Ray" where
  "segment rnd scene r k = (advance rnd scene ^^ k) (vec3_of (Fin 1), r)"

definition segment_hit :: "rounding \<Rightarrow> Scene \<Rightarrow> Ray \<Rightarrow> nat \<Rightarrow> Intersection" where
  "segment_hit rnd scene r k =
     Scene_intersect rnd scene (snd (segment rnd scene r k)) (Fin 0) INFINITY"

definition escapes :: "rounding \<Rightarrow> Scene \<Rightarrow> Ray \<Rightarrow> nat \<Rightarrow> bool" where
  "escapes rnd scene r k \<longleftrightarrow> \<not> valid (segment_hit rnd scene r k)"

text \<open>A value that is already a \<^verbatim>\<open>float\<close>: rounding leaves it as it is.\<close>

definition representable :: "rounding \<Rightarrow> fl \<Rightarrow> bool" where
  "representable rnd v = (case v of Fin a \<Rightarrow> rnd a = Fin a | _ \<Rightarrow> True)"

definition representable3 :: "rounding \<Rightarrow> vec3 \<Rightarrow> bool" where
  "representable3 rnd v \<longleftrightarrow>
     representable rnd (vx v) \<and> representable rnd (vy v) \<and> representable rnd (vz v)"

text \<open>
  The diffuse integrators in the words of the specification. The samples of all the
  lights of the scene at a point, in the order the integrators visit them (point,
  directional, cone, cylinder); the contribution of one sample,
  \<open>albedo * incidentRadiance * max(0, dot(normal, directionToLight))\<close>; and the ambient
  term \<open>pi * albedo * ambientRadiance\<close> plus the contributions of the samples, added
  one after the other.
\<close>

definition light_samples :: "rounding \<Rightarrow> Scene \<Rightarrow> vec3 \<Rightarrow> LightSample list" where
  "light_samples rnd scene p =
     map (\<lambda>light. PointLight_sampleRadiance rnd light p) (pointLights scene) @
     map (\<lambda>light. DirectionalLight_sampleRadiance light p) (directionalLights scene) @
     map (\<lambda>light. ConeLight_sampleRadiance rnd light p) (coneLights scene) @
     map (\<lambda>light. CylinderLight_sampleRadiance rnd light p) (cylinderLights scene)"



text \<open>
  The point from which \<^verbatim>\<open>DiffuseDirectIlluminationIntegrator\<close> casts its shadow
  rays, and the condition that no shadow query of a primary ray finds an occluder.
\<close>

definition shading_point :: "rounding \<Rightarrow> Scene \<Rightarrow> Ray \<Rightarrow> vec3" where
  "shading_point rnd scene ray =
     (let nearest = Scene_intersect rnd scene ray (Fin 0) INFINITY
      in vadd rnd (pos nearest) (scalev rnd (EPSILON rnd) (facing_normal rnd ray nearest)))"

definition unoccluded :: "rounding \<Rightarrow> Scene \<Rightarrow> Ray \<Rightarrow> bool" where
  "unoccluded rnd scene ray =
     list_all (\<lambda>lightSample.
         \<not> Scene_intersectAny rnd scene
             \<lparr>ray_o = shading_point rnd scene ray, ray_d = direction lightSample\<rparr>
             (Fin 0) (distanceToLight lightSample))
       (light_samples rnd scene (shading_point rnd scene ray))"

text \<open>
  The first sphere of the collection that is hit at distance \<open>t\<close>: its index is the
  number of spheres before it, none of which is hit at \<open>t\<close>.
\<close>

definition first_hit_at :: "rounding \<Rightarrow> Scene \<Rightarrow> Ray \<Rightarrow> fl \<Rightarrow> fl \<Rightarrow> fl \<Rightarrow> nat" where
  "first_hit_at rnd scene ray minT maxT t =
     length (takeWhile (\<lambda>s. dist (Sphere_intersect rnd s ray minT maxT) \<noteq> t) (spheres scene))"

section \<open>Example data\<close>

text \<open>
  A sphere of radius 1 with a given center on the z axis and a given albedo; the rays
  along the z axis that start at height \<open>a\<close>, upwards and downwards; a scene that has
  only spheres, and a scene with an ambient radiance, point lights and directional
  lights.
\<close>

definition z_sphere :: "real \<Rightarrow> vec3 \<Rightarrow> Sphere" where
  "z_sphere c albedo = \<lparr>sph_origin = rgb 0 0 c, sph_radius = Fin 1, sph_color = albedo\<rparr>"

definition z_ray :: "real \<Rightarrow> Ray" where
  "z_ray a = \<lparr>ray_o = rgb 0 0 a, ray_d = rgb 0 0 1\<rparr>"

definition down_ray :: "real \<Rightarrow> Ray" where
  "down_ray a = \<lparr>ray_o = rgb 0 0 a, ray_d = rgb 0 0 (- 1)\<rparr>"

definition spheres_only :: "Sphere list \<Rightarrow> Scene" where
  "spheres_only ss =
     \<lparr>spheres = ss, ambientLight = \<lparr>amb_radiance = rgb 0 0 0\<rparr>, pointLights = [],
      directionalLights = [], coneLights = [], cylinderLights = []\<rparr>"

definition lit_scene ::
  "Sphere list \<Rightarrow> vec3 \<Rightarrow> PointLight list \<Rightarrow> DirectionalLight list \<Rightarrow> Scene" where
  "lit_scene ss ambient pls dls =
     \<lparr>spheres = ss, ambientLight = \<lparr>amb_radiance = ambient\<rparr>, pointLights = pls,
      directionalLights = dls, coneLights = [], cylinderLights = []\<rparr>"

section \<open>Properties of the comparisons\<close>

lemma flt_irrefl: "\<not> flt a a"
  by (cases a) simp_all

lemma flt_trans: "flt a b \<Longrightarrow> flt b c \<Longrightarrow> flt a c"
  by (cases a; cases b; cases c) simp_all

lemma flt_fle_trans: "flt a b \<Longrightarrow> fle b c \<Longrightarrow> flt a c"
  by (cases a; cases b; cases c) simp_all

lemma fle_flt_trans: "fle a b \<Longrightarrow> flt b c \<Longrightarrow> flt a c"
  by (cases a; cases b; cases c) simp_all

lemma flt_imp_fle: "flt a b \<Longrightarrow> fle a b"
  by (cases a; cases b) simp_all

lemma flt_below_inf: "flt a b \<Longrightarrow> flt a PInf"
  by (cases a; cases b) simp_all

lemma flt_asym: "flt a b \<Longrightarrow> \<not> fle b a"
  by (cases a; cases b) simp_all

lemma unordered_is_NaN: "\<not> fle d (Fin 0) \<Longrightarrow> \<not> flt (Fin 0) d \<Longrightarrow> d = NaN"
  by (cases d) auto

lemma fle_not_flt: "fle d (Fin 0) \<Longrightarrow> \<not> flt (Fin 0) d"
  by (cases d) auto

lemma fsub_NaN [simp]: "fsub rnd b NaN = NaN"
  by (cases b) simp_all

lemma fadd_NaN [simp]: "fadd rnd b NaN = NaN"
  by (cases b) simp_all

section \<open>Rounding to single precision\<close>

text \<open>Powers of two.\<close>

lemma pow2_powr: "pow2 e = 2 powr of_int e"
  by (simp add: pow2_def powr_real_of_int divide_inverse)

lemma pow2_pos: "0 < pow2 e"
  by (simp add: pow2_powr)

lemma pow2_add: "pow2 (e + f) = pow2 e * pow2 f"
  by (simp add: pow2_powr powr_add)

lemma pow2_nat: "0 \<le> e \<Longrightarrow> pow2 e = 2 ^ nat e"
  by (simp add: pow2_def)

lemma pow2_mono: "e \<le> f \<Longrightarrow> pow2 e \<le> pow2 f"
  by (simp add: pow2_powr)

lemma pow2_24: "pow2 (e + 1) = 2 ^ 24 * pow2 (e - 23)"
proof -
  have "e + 1 = 24 + (e - 23)" by simp
  then have "pow2 (e + 1) = pow2 (24 + (e - 23))" by (rule arg_cong)
  also have "\<dots> = pow2 24 * pow2 (e - 23)" by (rule pow2_add)
  also have "pow2 24 = 2 ^ 24" by (simp add: pow2_def)
  finally show ?thesis .
qed

lemma pow2_23: "pow2 e = 2 ^ 23 * pow2 (e - 23)"
proof -
  have "e = 23 + (e - 23)" by simp
  then have "pow2 e = pow2 (23 + (e - 23))" by (rule arg_cong)
  also have "\<dots> = pow2 23 * pow2 (e - 23)" by (rule pow2_add)
  also have "pow2 23 = 2 ^ 23" by (simp add: pow2_def)
  finally show ?thesis .
qed

text \<open>The nearest integer, ties to even.\<close>

lemma nearest_even_of_int: "nearest_even (of_int k) = k"
  by (simp add: nearest_even_def)

lemma nearest_even_bounds: "\<lfloor>a\<rfloor> \<le> nearest_even a \<and> nearest_even a \<le> \<lceil>a\<rceil>"
proof -
  have "\<lfloor>a\<rfloor> + 1 \<le> \<lceil>a\<rceil>" if "0 < a - of_int \<lfloor>a\<rfloor>"
    using that by (simp add: ceiling_altdef)
  then show ?thesis by (auto simp add: nearest_even_def Let_def)
qed

lemma nearest_even_uminus: "nearest_even (- a) = - nearest_even a"
proof (cases "a = of_int \<lfloor>a\<rfloor>")
  case True
  then obtain k :: int where a: "a = of_int k" ..
  have "\<lfloor>- (of_int k :: real)\<rfloor> = - k" by (metis floor_of_int of_int_minus)
  then show ?thesis by (simp add: a nearest_even_def Let_def)
next
  case False
  then have f: "\<lfloor>- a\<rfloor> = - \<lfloor>a\<rfloor> - 1"
    by (simp add: floor_minus ceiling_altdef)
  have parity: "even (- \<lfloor>a\<rfloor> - 1) \<longleftrightarrow> odd \<lfloor>a\<rfloor>" by simp
  show ?thesis
    unfolding nearest_even_def Let_def f parity
    by (auto simp add: field_simps)
qed

lemma nearest_even_mono:
  assumes "x \<le> y"
  shows "nearest_even x \<le> nearest_even y"
proof (cases "\<lfloor>x\<rfloor> = \<lfloor>y\<rfloor>")
  case True
  with assms show ?thesis by (auto simp add: nearest_even_def Let_def)
next
  case False
  with assms floor_mono [of x y] have "\<lfloor>x\<rfloor> < \<lfloor>y\<rfloor>" by simp
  moreover have "\<lceil>x\<rceil> \<le> \<lfloor>x\<rfloor> + 1" by (simp add: ceiling_altdef)
  ultimately show ?thesis
    using nearest_even_bounds [of x] nearest_even_bounds [of y] by linarith
qed

text \<open>The exponent and the nearest value.\<close>

lemma exponent32_uminus: "exponent32 (- a) = exponent32 a"
  by (simp add: exponent32_def)

lemma nearest32_uminus: "nearest32 (- a) = - nearest32 a"
  by (simp add: nearest32_def Let_def exponent32_uminus nearest_even_uminus)

lemma exponent32_ge: "- 126 \<le> exponent32 a"
  by (simp add: exponent32_def)

lemma exponent32_mono:
  assumes "0 < a" "a \<le> b"
  shows "exponent32 a \<le> exponent32 b"
proof -
  from assms have "log 2 a \<le> log 2 b" by simp
  then have "\<lfloor>log 2 a\<rfloor> \<le> \<lfloor>log 2 b\<rfloor>" by (rule floor_mono)
  with assms show ?thesis by (simp add: exponent32_def)
qed

lemma below_next_binade:
  assumes "a \<noteq> 0"
  shows "\<bar>a\<bar> < pow2 (exponent32 a + 1)"
proof -
  from assms have pos: "0 < \<bar>a\<bar>" by simp
  have "log 2 \<bar>a\<bar> < of_int (\<lfloor>log 2 \<bar>a\<bar>\<rfloor> + 1)" by linarith
  also have "\<dots> \<le> of_int (exponent32 a + 1)" by (simp add: exponent32_def)
  finally have "\<bar>a\<bar> < 2 powr of_int (exponent32 a + 1)"
    using pos by (simp add: log_less_iff del: of_int_add)
  then show ?thesis by (simp only: pow2_powr)
qed

lemma above_binade:
  assumes "0 < a" "- 126 < exponent32 a"
  shows "pow2 (exponent32 a) \<le> a"
proof -
  from assms(2) have e: "exponent32 a = \<lfloor>log 2 a\<rfloor>"
    using assms(1) by (simp add: exponent32_def max_def split: if_splits)
  have "of_int \<lfloor>log 2 a\<rfloor> \<le> log 2 a" by simp
  then have "2 powr of_int \<lfloor>log 2 a\<rfloor> \<le> a"
    using assms(1) by (simp add: le_log_iff del: of_int_floor_le)
  then show ?thesis by (simp only: e pow2_powr)
qed

lemma nearest32_upper:
  assumes "0 < a"
  shows "nearest32 a \<le> pow2 (exponent32 a + 1)"
proof -
  let ?u = "pow2 (exponent32 a - 23)"
  have p: "pow2 (exponent32 a + 1) = 2 ^ 24 * ?u" by (rule pow2_24)
  from assms below_next_binade [of a] have "a < 2 ^ 24 * ?u" by (simp add: p)
  then have "a / ?u \<le> 2 ^ 24" using pow2_pos [of "exponent32 a - 23"]
    by (simp add: pos_divide_le_eq)
  then have "\<lceil>a / ?u\<rceil> \<le> 2 ^ 24" by (simp add: ceiling_le_iff)
  with nearest_even_bounds [of "a / ?u"] have "nearest_even (a / ?u) \<le> 2 ^ 24" by linarith
  then have "(of_int (nearest_even (a / ?u)) :: real) \<le> 2 ^ 24"
    by (metis of_int_le_numeral_power_cancel_iff)
  then have "of_int (nearest_even (a / ?u)) * ?u \<le> 2 ^ 24 * ?u"
    using pow2_pos [of "exponent32 a - 23"] by simp
  then show ?thesis by (simp add: nearest32_def Let_def p)
qed

lemma nearest32_lower:
  assumes "0 < a" "- 126 < exponent32 a"
  shows "pow2 (exponent32 a) \<le> nearest32 a"
proof -
  let ?u = "pow2 (exponent32 a - 23)"
  have p: "pow2 (exponent32 a) = 2 ^ 23 * ?u" by (rule pow2_23)
  from above_binade [OF assms] have "2 ^ 23 * ?u \<le> a" by (simp add: p)
  then have "2 ^ 23 \<le> a / ?u" using pow2_pos [of "exponent32 a - 23"]
    by (simp add: pos_le_divide_eq)
  then have "2 ^ 23 \<le> \<lfloor>a / ?u\<rfloor>" by (simp add: le_floor_iff)
  with nearest_even_bounds [of "a / ?u"] have "2 ^ 23 \<le> nearest_even (a / ?u)" by linarith
  then have "2 ^ 23 \<le> (of_int (nearest_even (a / ?u)) :: real)"
    by (metis numeral_power_le_of_int_cancel_iff)
  then have "2 ^ 23 * ?u \<le> of_int (nearest_even (a / ?u)) * ?u"
    using pow2_pos [of "exponent32 a - 23"] by simp
  then show ?thesis by (simp add: nearest32_def Let_def p)
qed

lemma nearest32_nonneg:
  assumes "0 < a"
  shows "0 \<le> nearest32 a"
proof -
  let ?u = "pow2 (exponent32 a - 23)"
  from assms have "0 \<le> a / ?u" using pow2_pos [of "exponent32 a - 23"] by simp
  then have "0 \<le> \<lfloor>a / ?u\<rfloor>" by simp
  with nearest_even_bounds [of "a / ?u"] have "0 \<le> nearest_even (a / ?u)" by linarith
  then show ?thesis using pow2_pos [of "exponent32 a - 23"]
    by (simp add: nearest32_def Let_def)
qed

lemma nearest32_mono_pos:
  assumes "0 < a" "a \<le> b"
  shows "nearest32 a \<le> nearest32 b"
proof (cases "exponent32 a = exponent32 b")
  case True
  let ?u = "pow2 (exponent32 b - 23)"
  from assms have "a / ?u \<le> b / ?u" using pow2_pos [of "exponent32 b - 23"]
    by (simp add: divide_right_mono)
  then have "nearest_even (a / ?u) \<le> nearest_even (b / ?u)" by (rule nearest_even_mono)
  then have "of_int (nearest_even (a / ?u)) * ?u \<le> of_int (nearest_even (b / ?u)) * ?u"
    using pow2_pos [of "exponent32 b - 23"] by simp
  then show ?thesis by (simp add: nearest32_def Let_def True)
next
  case False
  with exponent32_mono [OF assms] have lt: "exponent32 a < exponent32 b" by simp
  with exponent32_ge [of a] have "- 126 < exponent32 b" by simp
  moreover from assms have "0 < b" by simp
  ultimately have "pow2 (exponent32 b) \<le> nearest32 b" by (intro nearest32_lower)
  moreover from lt have "pow2 (exponent32 a + 1) \<le> pow2 (exponent32 b)"
    by (intro pow2_mono) simp
  moreover note nearest32_upper [OF assms(1)]
  ultimately show ?thesis by linarith
qed

text \<open>The properties of rounding that the theorems below assume hold of \<open>binary32\<close>.\<close>

lemma symmetric_rounding_binary32: "symmetric_rounding binary32"
  by (simp add: symmetric_rounding_def binary32_def nearest32_uminus)

lemma fle_fneg: "fle (fneg a) (fneg b) = fle b a"
  by (cases a; cases b) simp_all

lemma fle_trans_zero: "fle a (Fin 0) \<Longrightarrow> fle (Fin 0) b \<Longrightarrow> fle a b"
  by (cases a; cases b) simp_all

lemma binary32_nonneg: "0 \<le> a \<Longrightarrow> fle (Fin 0) (binary32 a)"
  using nearest32_nonneg [of a] by (cases "a = 0") (simp_all add: binary32_def)

lemma binary32_mono_pos:
  assumes "0 < a" "a \<le> b"
  shows "fle (binary32 a) (binary32 b)"
  using nearest32_mono_pos [OF assms] nearest32_nonneg [of a] nearest32_nonneg [of b] assms
  by (simp add: binary32_def)

lemma monotone_rounding_binary32: "monotone_rounding binary32"
  unfolding monotone_rounding_def
proof (intro conjI allI impI)
  show "binary32 0 = Fin 0" by (simp add: binary32_def)
next
  fix a b :: real
  assume ab: "a \<le> b"
  have neg: "binary32 x = fneg (binary32 (- x))" for x
    using symmetric_rounding_binary32 [unfolded symmetric_rounding_def, rule_format, of "- x"]
    by simp
  consider "0 < a" | "b < 0" | "a \<le> 0" "0 \<le> b" by linarith
  then show "fle (binary32 a) (binary32 b)"
  proof cases
    case 1
    with ab show ?thesis by (intro binary32_mono_pos)
  next
    case 2
    with ab have "fle (binary32 (- b)) (binary32 (- a))" by (intro binary32_mono_pos) simp_all
    then show ?thesis by (subst neg [of a], subst neg [of b]) (simp only: fle_fneg)
  next
    case 3
    from 3(1) have "fle (Fin 0) (binary32 (- a))" by (intro binary32_nonneg) simp
    then have "fle (binary32 a) (Fin 0)"
      by (subst neg [of a]) (cases "binary32 (- a)", simp_all)
    moreover from 3(2) have "fle (Fin 0) (binary32 b)" by (rule binary32_nonneg)
    ultimately show ?thesis by (rule fle_trans_zero)
  qed
qed


lemma floor_log2_le:
  assumes "0 < b" "b < pow2 (e + 1)"
  shows "\<lfloor>log 2 b\<rfloor> \<le> e"
proof -
  from assms have "log 2 b < log 2 (pow2 (e + 1))" by (simp add: pow2_pos)
  also have "\<dots> = of_int (e + 1)" by (simp add: pow2_powr)
  finally have "\<lfloor>log 2 b\<rfloor> < e + 1" by (simp only: floor_less_iff)
  then show ?thesis by simp
qed

lemma binary32_representable:
  assumes e: "- 126 \<le> e" and m: "\<bar>m\<bar> < 2 ^ 24"
    and fin: "\<bar>of_int m * pow2 (e - 23)\<bar> < (2::real) ^ 128"
  shows "binary32 (of_int m * pow2 (e - 23)) = Fin (of_int m * pow2 (e - 23))"
proof (cases "m = 0")
  case True
  then show ?thesis by (simp add: binary32_def)
next
  case False
  let ?b = "of_int m * pow2 (e - 23) :: real"
  let ?e' = "exponent32 ?b"
  from False have nz: "?b \<noteq> 0" using pow2_pos [of "e - 23"] by simp
  then have pos: "0 < \<bar>?b\<bar>" by simp
  from m have "\<bar>of_int m :: real\<bar> < 2 ^ 24"
    by (metis of_int_abs of_int_less_numeral_power_cancel_iff)
  then have "\<bar>?b\<bar> < 2 ^ 24 * pow2 (e - 23)"
    using pow2_pos [of "e - 23"] by (simp add: abs_mult)
  also have "\<dots> = pow2 (e + 1)" by (rule pow2_24 [symmetric])
  finally have "\<lfloor>log 2 \<bar>?b\<bar>\<rfloor> \<le> e" using pos by (intro floor_log2_le)
  with e have le: "?e' \<le> e" by (simp add: exponent32_def)
  have "e - 23 = (e - ?e') + (?e' - 23)" by simp
  then have "pow2 (e - 23) = pow2 ((e - ?e') + (?e' - 23))" by (rule arg_cong)
  also have "\<dots> = pow2 (e - ?e') * pow2 (?e' - 23)" by (rule pow2_add)
  also have "pow2 (e - ?e') = 2 ^ nat (e - ?e')" using le by (intro pow2_nat) simp
  finally have split: "pow2 (e - 23) = 2 ^ nat (e - ?e') * pow2 (?e' - 23)" .
  have "?b / pow2 (?e' - 23) = of_int m * 2 ^ nat (e - ?e')"
    using pow2_pos [of "?e' - 23"] by (subst split) simp
  also have "\<dots> = of_int (m * 2 ^ nat (e - ?e'))" by simp
  finally have "nearest_even (?b / pow2 (?e' - 23)) = m * 2 ^ nat (e - ?e')"
    by (simp only: nearest_even_of_int)
  then have "nearest32 ?b = of_int m * (2 ^ nat (e - ?e') * pow2 (?e' - 23))"
    by (simp add: nearest32_def Let_def)
  then have "nearest32 ?b = ?b" by (simp only: split [symmetric])
  with nz fin show ?thesis by (simp add: binary32_def)
qed

lemma binary32_significand:
  assumes "a \<noteq> 0"
  shows "\<bar>nearest_even (a / pow2 (exponent32 a - 23))\<bar> \<le> 2 ^ 24"
proof -
  let ?x = "a / pow2 (exponent32 a - 23)"
  from below_next_binade [OF assms] have "\<bar>a\<bar> < 2 ^ 24 * pow2 (exponent32 a - 23)"
    by (simp only: pow2_24)
  then have "\<bar>?x\<bar> < 2 ^ 24"
    using pow2_pos [of "exponent32 a - 23"] by (simp add: pos_divide_less_eq)
  then have lo: "- (2 ^ 24) < ?x" and hi: "?x < 2 ^ 24" by linarith+
  from lo have "- (2 ^ 24) \<le> \<lfloor>?x\<rfloor>" by (simp add: le_floor_iff)
  moreover from hi have "\<lceil>?x\<rceil> \<le> 2 ^ 24" by (simp add: ceiling_le_iff)
  ultimately show ?thesis using nearest_even_bounds [of ?x] by linarith
qed

lemma idempotent_rounding_binary32: "idempotent_rounding binary32"
  unfolding idempotent_rounding_def
proof (intro allI impI)
  fix a b :: real
  assume ab: "binary32 a = Fin b"
  show "binary32 b = Fin b"
  proof (cases "a = 0")
    case True
    with ab show ?thesis by (simp add: binary32_def)
  next
    case False
    let ?e = "exponent32 a"
    let ?m = "nearest_even (a / pow2 (?e - 23))"
    from ab False have b: "b = of_int ?m * pow2 (?e - 23)"
      and fin: "\<bar>of_int ?m * pow2 (?e - 23)\<bar> < (2::real) ^ 128"
      by (simp_all add: binary32_def nearest32_def Let_def split: if_splits)
    have e: "- 126 \<le> ?e" by (rule exponent32_ge)
    from binary32_significand [OF False] have m: "\<bar>?m\<bar> \<le> 2 ^ 24" .
    show ?thesis
    proof (cases "\<bar>?m\<bar> < 2 ^ 24")
      case True
      with e fin show ?thesis unfolding b by (intro binary32_representable)
    next
      case False
      with m have "\<bar>?m\<bar> = 2 ^ 24" by simp
      then consider "?m = 2 ^ 24" | "?m = - (2 ^ 24)" by (auto simp add: abs_if split: if_splits)
      then obtain k :: int where k: "\<bar>k\<bar> < 2 ^ 24" and mk: "?m = 2 * k"
        by cases (auto intro: that [of "2 ^ 23"] that [of "- (2 ^ 23)"])
      have p1: "pow2 1 = 2" by (simp add: pow2_def)
      have "of_int ?m * pow2 (?e - 23) = of_int k * (pow2 1 * pow2 (?e - 23))"
        by (simp only: mk p1)
      also have "pow2 1 * pow2 (?e - 23) = pow2 (?e + 1 - 23)"
        using pow2_add [of 1 "?e - 23"] by (simp add: add.commute)
      finally have eq: "of_int ?m * pow2 (?e - 23) = of_int k * pow2 (?e + 1 - 23)" .
      have "binary32 (of_int k * pow2 (?e + 1 - 23)) = Fin (of_int k * pow2 (?e + 1 - 23))"
        using k fin e unfolding eq by (intro binary32_representable) simp_all
      then show ?thesis unfolding b eq .
    qed
  qed
qed

text \<open>How \<open>binary32\<close> rounds a number whose binade and nearest multiple are known.\<close>

lemma binary32_eval:
  assumes lo: "pow2 e \<le> \<bar>a\<bar>" and hi: "\<bar>a\<bar> < pow2 (e + 1)"
    and e: "- 126 \<le> e"
    and m: "nearest_even (a / pow2 (e - 23)) = m"
    and fin: "\<bar>of_int m * pow2 (e - 23)\<bar> < (2::real) ^ 128"
  shows "binary32 a = Fin (of_int m * pow2 (e - 23))"
proof -
  have "0 < pow2 e" by (simp add: pow2_powr)
  with lo have pos: "0 < \<bar>a\<bar>" by linarith
  then have nz: "a \<noteq> 0" by auto
  from pos lo hi have "\<lfloor>log 2 \<bar>a\<bar>\<rfloor> = e"
    by (simp add: floor_log_eq_powr_iff pow2_powr)
  with e have "max \<lfloor>log 2 \<bar>a\<bar>\<rfloor> (- 126) = e" by simp
  with nz m fin show ?thesis
    by (simp add: binary32_def nearest32_def exponent32_def Let_def)
qed

lemma nearest_even_unique:
  assumes "of_int m - 1 / 2 < a" "a < of_int m + 1 / 2"
  shows "nearest_even a = m"
proof (cases "of_int m \<le> a")
  case True
  with assms have "\<lfloor>a\<rfloor> = m" by (intro floor_unique) simp_all
  with assms show ?thesis by (simp add: nearest_even_def Let_def)
next
  case False
  with assms have "\<lfloor>a\<rfloor> = m - 1" by (intro floor_unique) simp_all
  with assms False show ?thesis by (simp add: nearest_even_def Let_def)
qed

lemma binary32_sqrt_eval:
  assumes lo: "(pow2 e)\<^sup>2 \<le> s" and hi: "s < (pow2 (e + 1))\<^sup>2"
    and e: "- 126 \<le> e" and m: "0 < m"
    and below: "((of_int m - 1 / 2) * pow2 (e - 23))\<^sup>2 < s"
    and above: "s < ((of_int m + 1 / 2) * pow2 (e - 23))\<^sup>2"
    and fin: "\<bar>of_int m * pow2 (e - 23)\<bar> < (2::real) ^ 128"
  shows "binary32 (sqrt s) = Fin (of_int m * pow2 (e - 23))"
proof -
  have u: "0 < pow2 (e - 23)" and p1: "0 < pow2 (e + 1)" by (simp_all add: pow2_powr)
  from lo have l: "pow2 e \<le> sqrt s" by (rule real_le_rsqrt)
  from p1 hi have h: "sqrt s < pow2 (e + 1)" by (intro real_less_lsqrt) simp_all
  have "0 < pow2 e" by (simp add: pow2_powr)
  with l have abs: "\<bar>sqrt s\<bar> = sqrt s" by simp
  from below have "(of_int m - 1 / 2) * pow2 (e - 23) < sqrt s" by (rule real_less_rsqrt)
  with u have b: "of_int m - 1 / 2 < sqrt s / pow2 (e - 23)"
    by (simp add: pos_less_divide_eq)
  from m have "0 \<le> (of_int m + 1 / 2) * pow2 (e - 23)" using u by simp
  with above have "sqrt s < (of_int m + 1 / 2) * pow2 (e - 23)"
    by (intro real_less_lsqrt) simp_all
  with u have a: "sqrt s / pow2 (e - 23) < of_int m + 1 / 2"
    by (simp add: pos_divide_less_eq)
  from b a have "nearest_even (sqrt s / pow2 (e - 23)) = m" by (rule nearest_even_unique)
  moreover from l abs have "pow2 e \<le> \<bar>sqrt s\<bar>" by simp
  moreover from h abs have "\<bar>sqrt s\<bar> < pow2 (e + 1)" by simp
  ultimately show ?thesis using e fin by (intro binary32_eval)
qed

lemma binary32_zero: "binary32 0 = Fin 0"
  by (simp add: binary32_def)





lemma binary32_one: "binary32 (1) = Fin (1)"
  using binary32_eval [of 0 "1" 8388608]
  by (simp add: pow2_def nearest_even_def Let_def)


lemma binary32_two: "binary32 (2) = Fin (2)"
  using binary32_eval [of 1 "2" 8388608]
  by (simp add: pow2_def nearest_even_def Let_def)








lemma binary32_sqrt_two: "binary32 (sqrt 2) = Fin (11863283 / 8388608)"
  using binary32_sqrt_eval [of 0 2 11863283] by (simp add: pow2_def power2_eq_square)

lemma binary32_sqrt_square: "binary32 (sqrt (16777215 / 16777216)) = Fin (16777215 / 16777216)"
  using binary32_sqrt_eval [of "- 1" "16777215 / 16777216" 16777215]
  by (simp add: pow2_def power2_eq_square)

lemma binary32_reciprocal: "binary32 (8388608 / 11863283) = Fin (11863283 / 16777216)"
  using binary32_eval [of "- 1" "8388608 / 11863283" 11863283]
  by (simp add: pow2_def nearest_even_def Let_def)

lemma binary32_component: "binary32 (11863283 / 16777216) = Fin (11863283 / 16777216)"
  using binary32_eval [of "- 1" "11863283 / 16777216" 11863283]
  by (simp add: pow2_def nearest_even_def Let_def)

lemma binary32_component_squared: "binary32 (140737483538089 / 281474976710656) = Fin (16777215 / 33554432)"
  using binary32_eval [of "- 2" "140737483538089 / 281474976710656" 16777215]
  by (simp add: pow2_def nearest_even_def Let_def)

lemma binary32_squares_sum: "binary32 (16777215 / 16777216) = Fin (16777215 / 16777216)"
  using binary32_eval [of "- 1" "16777215 / 16777216" 16777215]
  by (simp add: pow2_def nearest_even_def Let_def)

lemmas binary32_direction_values = binary32_one binary32_two binary32_sqrt_two binary32_sqrt_square binary32_reciprocal binary32_component binary32_component_squared binary32_squares_sum

section \<open>The sphere tests\<close>

lemma valid_noIntersection [simp]: "\<not> valid noIntersection"
  by (simp add: valid_def noIntersection_def INFINITY_def)

lemma dist_noIntersection [simp]: "dist noIntersection = PInf"
  by (simp add: noIntersection_def INFINITY_def)

lemma Sphere_intersect_unfold:
  "Sphere_intersect rnd s ray minT maxT =
     (if fle (sphere_d rnd s ray) (Fin 0) then noIntersection
      else if inside minT maxT (sphere_t1 rnd s ray)
        then sphere_hit rnd s ray (sphere_t1 rnd s ray)
      else if inside minT maxT (sphere_t2 rnd s ray)
        then sphere_hit rnd s ray (sphere_t2 rnd s ray)
      else noIntersection)"
  by (simp add: Sphere_intersect_def sphere_d_def sphere_b_def sphere_t1_def sphere_t2_def
      inside_def sphere_hit_def Sphere_normal_def ray_at_def Let_def)

lemma Sphere_intersectAny_unfold:
  "Sphere_intersectAny rnd s ray minT maxT \<longleftrightarrow>
     flt (Fin 0) (sphere_d rnd s ray) \<and>
     (inside minT maxT (sphere_t1 rnd s ray) \<or> inside minT maxT (sphere_t2 rnd s ray))"
  by (simp add: Sphere_intersectAny_def sphere_d_def sphere_b_def sphere_t1_def sphere_t2_def
      inside_def Let_def)

lemma dist_sphere_hit [simp]: "dist (sphere_hit rnd s ray t) = t"
  by (simp add: sphere_hit_def Let_def)

lemma color_sphere_hit [simp]: "color (sphere_hit rnd s ray t) = sph_color s"
  by (simp add: sphere_hit_def Let_def)

text \<open>The example sphere and ray, in exact arithmetic.\<close>

lemma z_example_d: "sphere_d Fin (z_sphere c albedo) (z_ray a) = Fin 1"
  by (simp add: sphere_d_def z_sphere_def z_ray_def rgb_def vsub_def dot_def Let_def
      algebra_simps)

lemma z_example_b: "sphere_b Fin (z_sphere c albedo) (z_ray a) = Fin (c - a)"
  by (simp add: sphere_b_def z_sphere_def z_ray_def rgb_def vsub_def dot_def)

lemma z_example_t1: "sphere_t1 Fin (z_sphere c albedo) (z_ray a) = Fin (c - a - 1)"
  by (simp add: sphere_t1_def z_example_d z_example_b)

lemma z_example_t2: "sphere_t2 Fin (z_sphere c albedo) (z_ray a) = Fin (c - a + 1)"
  by (simp add: sphere_t2_def z_example_d z_example_b)

lemma z_example_hit:
  "sphere_hit Fin (z_sphere c albedo) (z_ray a) (Fin t) =
     \<lparr>dist = Fin t, pos = rgb 0 0 (a + t), normal = rgb 0 0 (a + t - c), color = albedo\<rparr>"
  by (simp add: sphere_hit_def z_sphere_def z_ray_def rgb_def vsub_def vadd_def scalev_def
      vdivs_def Let_def)

text \<open>
  C3. \<^verbatim>\<open>Sphere::intersectAny\<close> reports a hit exactly when the record
  \<^verbatim>\<open>Sphere::intersect\<close> returns for the same sphere, ray and bounds is valid
  (its distance is below infinity). This holds for every rounding function and for
  every input, NaN and infinities included.
\<close>

theorem Sphere_intersectAny_iff_valid_intersect:
  "Sphere_intersectAny rnd s ray minT maxT = valid (Sphere_intersect rnd s ray minT maxT)"
proof (cases "fle (sphere_d rnd s ray) (Fin 0)")
  case True
  then show ?thesis
    by (simp add: Sphere_intersectAny_unfold Sphere_intersect_unfold fle_not_flt)
next
  case False
  show ?thesis
  proof (cases "flt (Fin 0) (sphere_d rnd s ray)")
    case True
    with False show ?thesis
      by (auto simp add: Sphere_intersectAny_unfold Sphere_intersect_unfold valid_def
          INFINITY_def inside_def dest: flt_below_inf)
  next
    case nlt: False
    with False have "sphere_d rnd s ray = NaN" by (rule unordered_is_NaN)
    then show ?thesis
      by (simp add: Sphere_intersectAny_unfold Sphere_intersect_unfold sphere_t1_def
          sphere_t2_def inside_def)
  qed
qed

theorem Sphere_intersectAny_iff_valid_intersect_witness:
  "Sphere_intersectAny Fin (z_sphere 0 (rgb 1 1 1)) (z_ray (- 3)) (Fin 0) PInf \<and>
   valid (Sphere_intersect Fin (z_sphere 0 (rgb 1 1 1)) (z_ray (- 3)) (Fin 0) PInf)"
  using Sphere_intersectAny_iff_valid_intersect
    [of Fin "z_sphere 0 (rgb 1 1 1)" "z_ray (- 3)" "Fin 0" PInf]
  by (simp add: Sphere_intersectAny_unfold z_example_d z_example_t1 inside_def)






section \<open>The scan over the spheres\<close>

lemma flt_PInf_left [simp]: "\<not> flt PInf a"
  by (cases a) simp_all

lemma not_flt_imp_fle: "flt c a \<Longrightarrow> flt e m \<Longrightarrow> \<not> flt a m \<Longrightarrow> fle m a"
  by (cases a; cases m; cases c; cases e) simp_all

lemma rounded_nonneg:
  assumes "monotone_rounding rnd" "0 \<le> a"
  shows "fle (Fin 0) (rnd a)"
  using assms unfolding monotone_rounding_def by metis

lemma roots_ordered_aux:
  assumes mono: "monotone_rounding rnd" and r: "fle (Fin 0) r"
  shows "\<not> flt (fadd rnd b r) (fsub rnd b r)"
proof (cases r)
  case (Fin y)
  with r have y: "0 \<le> y" by simp
  show ?thesis
  proof (cases b)
    case b: (Fin u)
    from y have "u - y \<le> u + y" by simp
    with mono have "fle (rnd (u - y)) (rnd (u + y))"
      unfolding monotone_rounding_def by blast
    then show ?thesis using Fin b flt_asym by auto
  qed (simp_all add: Fin)
next
  case PInf
  then show ?thesis by (cases b) simp_all
qed (use r in simp_all)

lemma fsqrt_nonneg:
  assumes "monotone_rounding rnd" "flt (Fin 0) d"
  shows "fle (Fin 0) (fsqrt rnd d)"
  using assms by (cases d) (simp_all add: rounded_nonneg)

lemma roots_ordered:
  assumes "monotone_rounding rnd" "flt (Fin 0) (sphere_d rnd s ray)"
  shows "\<not> flt (sphere_t2 rnd s ray) (sphere_t1 rnd s ray)"
  unfolding sphere_t1_def sphere_t2_def
  using assms by (intro roots_ordered_aux fsqrt_nonneg)

lemma inside_NaN_d:
  assumes "\<not> fle (sphere_d rnd s ray) (Fin 0)" "inside minT maxT (sphere_t1 rnd s ray)"
  shows "flt (Fin 0) (sphere_d rnd s ray)"
proof (rule ccontr)
  assume "\<not> flt (Fin 0) (sphere_d rnd s ray)"
  with assms(1) have "sphere_d rnd s ray = NaN" by (rule unordered_is_NaN)
  with assms(2) show False by (simp add: sphere_t1_def inside_def)
qed

lemma Sphere_intersect_dist_cases:
  "Sphere_intersect rnd s ray minT maxT = noIntersection \<or>
   inside minT maxT (dist (Sphere_intersect rnd s ray minT maxT))"
  by (simp add: Sphere_intersect_unfold)

lemma Sphere_intersect_self_bound:
  "Sphere_intersect rnd s ray minT maxT =
     (if flt (dist (Sphere_intersect rnd s ray minT maxT)) maxT
      then Sphere_intersect rnd s ray minT maxT else noIntersection)"
  using Sphere_intersect_dist_cases [of rnd s ray minT maxT]
  by (auto simp: inside_def)

lemma inside_narrow: "inside minT m t \<Longrightarrow> flt m maxT \<Longrightarrow> inside minT maxT t"
  by (auto simp: inside_def intro: flt_trans)

lemma Sphere_intersect_narrow_lt:
  assumes mono: "monotone_rounding rnd" and m: "flt m maxT"
  shows "Sphere_intersect rnd s ray minT m =
     (if flt (dist (Sphere_intersect rnd s ray minT maxT)) m
      then Sphere_intersect rnd s ray minT maxT else noIntersection)"
proof (cases "fle (sphere_d rnd s ray) (Fin 0)")
  case True
  then show ?thesis by (simp add: Sphere_intersect_unfold)
next
  case d: False
  let ?t1 = "sphere_t1 rnd s ray" and ?t2 = "sphere_t2 rnd s ray"
  show ?thesis
  proof (cases "inside minT m ?t1")
    case True
    from True m have "inside minT maxT ?t1" by (rule inside_narrow)
    moreover from True have "flt ?t1 m" by (simp add: inside_def)
    ultimately show ?thesis using True d by (simp add: Sphere_intersect_unfold)
  next
    case n1: False
    show ?thesis
    proof (cases "inside minT m ?t2")
      case t2: True
      from t2 m have t2': "inside minT maxT ?t2" by (rule inside_narrow)
      from t2 have lt2: "flt ?t2 m" by (simp add: inside_def)
      have "\<not> inside minT maxT ?t1"
      proof
        assume t1: "inside minT maxT ?t1"
        with d have pos: "flt (Fin 0) (sphere_d rnd s ray)" by (rule inside_NaN_d)
        from t1 n1 have "\<not> flt ?t1 m" by (simp add: inside_def)
        moreover from t1 have "flt minT ?t1" by (simp add: inside_def)
        ultimately have "fle m ?t1" using lt2 not_flt_imp_fle by blast
        with lt2 have "flt ?t2 ?t1" by (rule flt_fle_trans)
        with roots_ordered [OF mono pos] show False by simp
      qed
      with d t2 t2' n1 lt2 show ?thesis by (simp add: Sphere_intersect_unfold)
    next
      case n2: False
      show ?thesis
      proof (cases "inside minT maxT ?t1")
        case True
        with n1 have "\<not> flt ?t1 m" by (simp add: inside_def)
        with True d n1 n2 show ?thesis by (simp add: Sphere_intersect_unfold)
      next
        case f1: False
        show ?thesis
        proof (cases "inside minT maxT ?t2")
          case True
          with n2 have "\<not> flt ?t2 m" by (simp add: inside_def)
          with True f1 d n1 n2 show ?thesis by (simp add: Sphere_intersect_unfold)
        next
          case False
          with f1 d n1 n2 show ?thesis by (simp add: Sphere_intersect_unfold)
        qed
      qed
    qed
  qed
qed

lemma Sphere_intersect_narrow:
  assumes "monotone_rounding rnd" "m = maxT \<or> flt m maxT"
  shows "Sphere_intersect rnd s ray minT m =
     (if flt (dist (Sphere_intersect rnd s ray minT maxT)) m
      then Sphere_intersect rnd s ray minT maxT else noIntersection)"
  using assms Sphere_intersect_narrow_lt Sphere_intersect_self_bound by metis

lemma scene_step_plain:
  assumes "monotone_rounding rnd" "dist acc = maxT \<or> flt (dist acc) maxT"
  shows "scene_step rnd ray minT acc s = plain_step rnd ray minT maxT acc s"
proof -
  let ?f = "Sphere_intersect rnd s ray minT maxT"
  have narrow: "Sphere_intersect rnd s ray minT (dist acc) =
      (if flt (dist ?f) (dist acc) then ?f else noIntersection)"
    using assms by (rule Sphere_intersect_narrow)
  show ?thesis
  proof (cases "flt (dist ?f) (dist acc)")
    case True
    then show ?thesis by (simp add: scene_step_def plain_step_def narrow)
  next
    case False
    then show ?thesis by (simp add: scene_step_def plain_step_def narrow)
  qed
qed

lemma plain_step_bound:
  assumes "dist acc = maxT \<or> flt (dist acc) maxT"
  shows "dist (plain_step rnd ray minT maxT acc s) = maxT \<or>
         flt (dist (plain_step rnd ray minT maxT acc s)) maxT"
  using assms unfolding plain_step_def Let_def
  by (auto intro: flt_trans)

lemma foldl_scene_step_plain:
  assumes "monotone_rounding rnd"
  shows "dist acc = maxT \<or> flt (dist acc) maxT \<Longrightarrow>
     foldl (scene_step rnd ray minT) acc ss = foldl (plain_step rnd ray minT maxT) acc ss"
proof (induction ss arbitrary: acc)
  case Nil
  show ?case by simp
next
  case (Cons s ss)
  have "scene_step rnd ray minT acc s = plain_step rnd ray minT maxT acc s"
    using assms Cons.prems by (rule scene_step_plain)
  moreover have "dist (plain_step rnd ray minT maxT acc s) = maxT \<or>
         flt (dist (plain_step rnd ray minT maxT acc s)) maxT"
    using Cons.prems by (rule plain_step_bound)
  ultimately show ?case using Cons.IH by simp
qed

lemma Scene_intersect_eq_plain:
  assumes "monotone_rounding rnd"
  shows "Scene_intersect rnd scene ray minT maxT = Scene_intersect_plain rnd scene ray minT maxT"
  unfolding Scene_intersect_def Scene_intersect_plain_def
  by (subst foldl_scene_step_plain [OF assms, where maxT = maxT]) simp_all

lemma flt_not_NaN_right: "flt r a \<Longrightarrow> \<not> flt b a \<Longrightarrow> b \<noteq> NaN \<Longrightarrow> flt r b"
  by (cases r; cases a; cases b) simp_all

lemma flt_not_sym: "flt a b \<Longrightarrow> \<not> flt b a"
  by (cases a; cases b) simp_all

lemma flt_antisym_eq: "\<not> flt a b \<Longrightarrow> \<not> flt b a \<Longrightarrow> flt a c \<Longrightarrow> flt b e \<Longrightarrow> a = b"
  by (cases a; cases b; cases c; cases e) simp_all

lemma not_flt_imp_fle': "\<not> flt b a \<Longrightarrow> flt a c \<Longrightarrow> b \<noteq> NaN \<Longrightarrow> fle a b"
  by (cases a; cases b; cases c) simp_all

lemma Sphere_intersect_dist_not_NaN: "dist (Sphere_intersect rnd s ray minT maxT) \<noteq> NaN"
  using Sphere_intersect_dist_cases [of rnd s ray minT maxT]
  by (auto simp: inside_def)

lemma valid_iff_below_maxT:
  "valid (Sphere_intersect rnd s ray minT maxT) \<longleftrightarrow>
   flt (dist (Sphere_intersect rnd s ray minT maxT)) maxT"
  using Sphere_intersect_dist_cases [of rnd s ray minT maxT]
  by (auto simp: inside_def valid_def INFINITY_def dest: flt_below_inf)

lemma valid_Sphere_intersect_inside:
  "valid (Sphere_intersect rnd s ray minT maxT) \<Longrightarrow>
   inside minT maxT (dist (Sphere_intersect rnd s ray minT maxT))"
  using Sphere_intersect_dist_cases [of rnd s ray minT maxT] by auto

lemma foldl_plain_step_cases:
  "(foldl (plain_step rnd ray minT maxT) acc ss = acc \<and>
      (\<forall>q\<in>set ss. \<not> flt (dist (Sphere_intersect rnd q ray minT maxT)) (dist acc))) \<or>
   (\<exists>pre s post. ss = pre @ s # post \<and>
      foldl (plain_step rnd ray minT maxT) acc ss = Sphere_intersect rnd s ray minT maxT \<and>
      flt (dist (Sphere_intersect rnd s ray minT maxT)) (dist acc) \<and>
      (\<forall>p\<in>set pre. flt (dist (Sphere_intersect rnd s ray minT maxT))
                        (dist (Sphere_intersect rnd p ray minT maxT))) \<and>
      (\<forall>q\<in>set post. \<not> flt (dist (Sphere_intersect rnd q ray minT maxT))
                         (dist (Sphere_intersect rnd s ray minT maxT))))"
  (is "?P acc ss")
proof (induction ss arbitrary: acc)
  case Nil
  show ?case by simp
next
  case (Cons x xs)
  let ?f = "\<lambda>s. Sphere_intersect rnd s ray minT maxT"
  let ?F = "foldl (plain_step rnd ray minT maxT)"
  show ?case
  proof (cases "flt (dist (?f x)) (dist acc)")
    case True
    then have step: "plain_step rnd ray minT maxT acc x = ?f x"
      by (simp add: plain_step_def)
    from Cons.IH [of "?f x"] show ?thesis
    proof (elim disjE conjE exE)
      assume a: "?F (?f x) xs = ?f x"
        and b: "\<forall>q\<in>set xs. \<not> flt (dist (?f q)) (dist (?f x))"
      have "x # xs = [] @ x # xs" by simp
      with a b True step show ?thesis
        by (intro disjI2 exI [of _ "[]"] exI [of _ x] exI [of _ xs]) simp
    next
      fix pre s post
      assume a: "xs = pre @ s # post" and b: "?F (?f x) xs = ?f s"
        and c: "flt (dist (?f s)) (dist (?f x))"
        and d: "\<forall>p\<in>set pre. flt (dist (?f s)) (dist (?f p))"
        and e: "\<forall>q\<in>set post. \<not> flt (dist (?f q)) (dist (?f s))"
      from c True have "flt (dist (?f s)) (dist acc)" by (rule flt_trans)
      with a b c d e step show ?thesis
        by (intro disjI2 exI [of _ "x # pre"] exI [of _ s] exI [of _ post]) simp
    qed
  next
    case False
    then have step: "plain_step rnd ray minT maxT acc x = acc"
      by (simp add: plain_step_def)
    from Cons.IH [of acc] show ?thesis
    proof (elim disjE conjE exE)
      assume a: "?F acc xs = acc"
        and b: "\<forall>q\<in>set xs. \<not> flt (dist (?f q)) (dist acc)"
      with False step show ?thesis by simp
    next
      fix pre s post
      assume a: "xs = pre @ s # post" and b: "?F acc xs = ?f s"
        and c: "flt (dist (?f s)) (dist acc)"
        and d: "\<forall>p\<in>set pre. flt (dist (?f s)) (dist (?f p))"
        and e: "\<forall>q\<in>set post. \<not> flt (dist (?f q)) (dist (?f s))"
      from c False have "flt (dist (?f s)) (dist (?f x))"
        by (rule flt_not_NaN_right) (rule Sphere_intersect_dist_not_NaN)
      with a b c d e step show ?thesis
        by (intro disjI2 exI [of _ "x # pre"] exI [of _ s] exI [of _ post]) simp
    qed
  qed
qed

text \<open>The result of the scan, by index: the first sphere whose hit is nearest.\<close>

lemma Scene_intersect_plain_cases:
  "((\<forall>s\<in>set (spheres scene). \<not> valid (Sphere_intersect rnd s ray minT maxT)) \<and>
      Scene_intersect_plain rnd scene ray minT maxT = noIntersection) \<or>
   (\<exists>n<length (spheres scene).
      Scene_intersect_plain rnd scene ray minT maxT =
        Sphere_intersect rnd (spheres scene ! n) ray minT maxT \<and>
      valid (Sphere_intersect rnd (spheres scene ! n) ray minT maxT) \<and>
      (\<forall>k<n. flt (dist (Sphere_intersect rnd (spheres scene ! n) ray minT maxT))
                 (dist (Sphere_intersect rnd (spheres scene ! k) ray minT maxT))) \<and>
      (\<forall>k<length (spheres scene).
         \<not> flt (dist (Sphere_intersect rnd (spheres scene ! k) ray minT maxT))
               (dist (Sphere_intersect rnd (spheres scene ! n) ray minT maxT))))"
proof -
  let ?f = "\<lambda>s. Sphere_intersect rnd s ray minT maxT"
  let ?ss = "spheres scene"
  let ?acc = "noIntersection\<lparr>dist := maxT\<rparr>"
  let ?F = "foldl (plain_step rnd ray minT maxT) ?acc ?ss"
  from foldl_plain_step_cases [of rnd ray minT maxT ?acc ?ss] show ?thesis
  proof (elim disjE conjE exE)
    assume a: "?F = ?acc" and b: "\<forall>q\<in>set ?ss. \<not> flt (dist (?f q)) (dist ?acc)"
    from b have "\<forall>s\<in>set ?ss. \<not> valid (?f s)" by (simp add: valid_iff_below_maxT)
    moreover from a have "Scene_intersect_plain rnd scene ray minT maxT = noIntersection"
      by (simp add: Scene_intersect_plain_def flt_irrefl)
    ultimately show ?thesis by blast
  next
    fix pre s post
    assume a: "?ss = pre @ s # post" and b: "?F = ?f s"
      and c: "flt (dist (?f s)) (dist ?acc)"
      and d: "\<forall>p\<in>set pre. flt (dist (?f s)) (dist (?f p))"
      and e: "\<forall>q\<in>set post. \<not> flt (dist (?f q)) (dist (?f s))"
    let ?n = "length pre"
    from a have n: "?n < length ?ss" and sn: "?ss ! ?n = s" by simp_all
    from c have lt: "flt (dist (?f s)) maxT" by simp
    then have v: "valid (?f s)" by (simp add: valid_iff_below_maxT)
    from b lt have r: "Scene_intersect_plain rnd scene ray minT maxT = ?f s"
      by (simp add: Scene_intersect_plain_def)
    have before: "\<forall>k<?n. flt (dist (?f s)) (dist (?f (?ss ! k)))"
      using a d by (simp add: nth_append)
    have all: "\<forall>k<length ?ss. \<not> flt (dist (?f (?ss ! k))) (dist (?f s))"
    proof (intro allI impI)
      fix k assume k: "k < length ?ss"
      consider "k < ?n" | "k = ?n" | "?n < k" by linarith
      then show "\<not> flt (dist (?f (?ss ! k))) (dist (?f s))"
      proof cases
        case 1
        with before show ?thesis by (blast dest: flt_not_sym)
      next
        case 2
        with sn show ?thesis by (simp add: flt_irrefl)
      next
        case 3
        with a k have "?ss ! k \<in> set post"
          by (auto simp add: nth_append nth_Cons split: nat.splits)
        with e show ?thesis by blast
      qed
    qed
    from n r v before all sn show ?thesis by blast
  qed
qed

lemma spheres_spheres_only [simp]: "spheres (spheres_only ss) = ss"
  by (simp add: spheres_only_def)

lemma monotone_rounding_Fin: "monotone_rounding Fin"
  by (simp add: monotone_rounding_def)

lemma fle_refl_inside: "flt a t \<Longrightarrow> fle t t"
  by (cases a; cases t) simp_all

lemma valid_iff_roots:
  "valid (Sphere_intersect rnd s ray minT maxT) \<longleftrightarrow>
   filter (inside minT maxT) (sphere_roots rnd s ray) \<noteq> []"
proof (cases "flt (Fin 0) (sphere_d rnd s ray)")
  case True
  then have "\<not> fle (sphere_d rnd s ray) (Fin 0)" using fle_not_flt by blast
  with True show ?thesis
    by (auto simp add: Sphere_intersect_unfold sphere_roots_def valid_def INFINITY_def
        inside_def dest: flt_below_inf)
next
  case False
  show ?thesis
  proof (cases "fle (sphere_d rnd s ray) (Fin 0)")
    case True
    with False show ?thesis by (simp add: Sphere_intersect_unfold sphere_roots_def)
  next
    case nle: False
    from nle False have "sphere_d rnd s ray = NaN" by (rule unordered_is_NaN)
    then show ?thesis
      by (simp add: Sphere_intersect_unfold sphere_roots_def sphere_t1_def sphere_t2_def
          inside_def)
  qed
qed

lemma valid_dist_in_roots:
  assumes "valid (Sphere_intersect rnd s ray minT maxT)"
  shows "dist (Sphere_intersect rnd s ray minT maxT)
           \<in> set (filter (inside minT maxT) (sphere_roots rnd s ray))"
proof -
  from assms have ne: "filter (inside minT maxT) (sphere_roots rnd s ray) \<noteq> []"
    by (simp add: valid_iff_roots)
  then have pos: "flt (Fin 0) (sphere_d rnd s ray)"
    by (auto simp add: sphere_roots_def split: if_splits)
  then have "\<not> fle (sphere_d rnd s ray) (Fin 0)" using fle_not_flt by blast
  with ne pos show ?thesis
    by (auto simp add: Sphere_intersect_unfold sphere_roots_def split: if_splits)
qed

lemma Sphere_intersect_le_root:
  assumes mono: "monotone_rounding rnd"
    and t: "t \<in> set (filter (inside minT maxT) (sphere_roots rnd s ray))"
  shows "fle (dist (Sphere_intersect rnd s ray minT maxT)) t"
proof -
  let ?t1 = "sphere_t1 rnd s ray" and ?t2 = "sphere_t2 rnd s ray"
  from t have pos: "flt (Fin 0) (sphere_d rnd s ray)"
    by (auto simp add: sphere_roots_def split: if_splits)
  then have nle: "\<not> fle (sphere_d rnd s ray) (Fin 0)" using fle_not_flt by blast
  from t have ti: "inside minT maxT t" and tr: "t \<in> set (sphere_roots rnd s ray)"
    by simp_all
  from tr pos have tt: "t = ?t1 \<or> t = ?t2" by (simp add: sphere_roots_def)
  from ti have self: "fle t t" by (auto simp: inside_def intro: fle_refl_inside)
  show ?thesis
  proof (cases "inside minT maxT ?t1")
    case True
    with nle have r: "dist (Sphere_intersect rnd s ray minT maxT) = ?t1"
      by (simp add: Sphere_intersect_unfold)
    from tt show ?thesis
    proof
      assume "t = ?t1" with r self show ?thesis by simp
    next
      assume t2: "t = ?t2"
      from roots_ordered [OF mono pos] have "\<not> flt ?t2 ?t1" .
      moreover from True have "flt ?t1 maxT" by (simp add: inside_def)
      moreover from ti t2 have "?t2 \<noteq> NaN" by (auto simp: inside_def)
      ultimately have "fle ?t1 ?t2" by (rule not_flt_imp_fle')
      with r t2 show ?thesis by simp
    qed
  next
    case False
    with tt ti have "t = ?t2" by auto
    with False nle ti self show ?thesis by (simp add: Sphere_intersect_unfold)
  qed
qed

lemma set_scene_hits:
  "set (scene_hits rnd scene ray minT maxT) =
     (\<Union>s\<in>set (spheres scene). set (filter (inside minT maxT) (sphere_roots rnd s ray)))"
  by (simp add: scene_hits_def)

lemma scene_hits_Nil_iff:
  "scene_hits rnd scene ray minT maxT = [] \<longleftrightarrow>
   (\<forall>s\<in>set (spheres scene). \<not> valid (Sphere_intersect rnd s ray minT maxT))"
  by (simp add: scene_hits_def valid_iff_roots)

text \<open>
  C2. \<^verbatim>\<open>Scene::intersect\<close> returns the nearest hit. With \<open>scene_hits\<close> the
  parameters strictly inside \<open>(minT, maxT)\<close> at which the ray meets any sphere of the
  scene: when there is none the result is the no-intersection value; otherwise the
  result is valid, its distance is one of these parameters and is at most every one of
  them, and the record is the one \<^verbatim>\<open>Sphere::intersect\<close> returns for a sphere
  of the scene. The narrowing of the upper bound does not change the result: the scan
  that queries every sphere with the bounds of the caller returns the same record.
  The rounding function of the machine is monotone.
\<close>

theorem Scene_intersect_nearest:
  assumes mono: "monotone_rounding rnd"
  shows "(scene_hits rnd scene ray minT maxT = [] \<longrightarrow>
            Scene_intersect rnd scene ray minT maxT = noIntersection) \<and>
         (scene_hits rnd scene ray minT maxT \<noteq> [] \<longrightarrow>
            valid (Scene_intersect rnd scene ray minT maxT) \<and>
            dist (Scene_intersect rnd scene ray minT maxT)
              \<in> set (scene_hits rnd scene ray minT maxT) \<and>
            (\<forall>t\<in>set (scene_hits rnd scene ray minT maxT).
               fle (dist (Scene_intersect rnd scene ray minT maxT)) t) \<and>
            (\<exists>s\<in>set (spheres scene).
               Scene_intersect rnd scene ray minT maxT =
                 Sphere_intersect rnd s ray minT maxT)) \<and>
         Scene_intersect rnd scene ray minT maxT =
           Scene_intersect_plain rnd scene ray minT maxT"
proof -
  let ?f = "\<lambda>s. Sphere_intersect rnd s ray minT maxT"
  let ?ss = "spheres scene"
  let ?R = "Scene_intersect rnd scene ray minT maxT"
  have plain: "?R = Scene_intersect_plain rnd scene ray minT maxT"
    using mono by (rule Scene_intersect_eq_plain)
  from Scene_intersect_plain_cases [of scene rnd ray minT maxT]
  have "(scene_hits rnd scene ray minT maxT = [] \<longrightarrow> ?R = noIntersection) \<and>
        (scene_hits rnd scene ray minT maxT \<noteq> [] \<longrightarrow>
            valid ?R \<and> dist ?R \<in> set (scene_hits rnd scene ray minT maxT) \<and>
            (\<forall>t\<in>set (scene_hits rnd scene ray minT maxT). fle (dist ?R) t) \<and>
            (\<exists>s\<in>set ?ss. ?R = ?f s))"
  proof (elim disjE conjE exE)
    assume "\<forall>s\<in>set ?ss. \<not> valid (?f s)"
      and "Scene_intersect_plain rnd scene ray minT maxT = noIntersection"
    then show ?thesis by (simp add: plain scene_hits_Nil_iff)
  next
    fix n
    assume n: "n < length ?ss"
      and r: "Scene_intersect_plain rnd scene ray minT maxT = ?f (?ss ! n)"
      and v: "valid (?f (?ss ! n))"
      and least: "\<forall>k<length ?ss. \<not> flt (dist (?f (?ss ! k))) (dist (?f (?ss ! n)))"
    from n have mem: "?ss ! n \<in> set ?ss" by simp
    from v mem have ne: "scene_hits rnd scene ray minT maxT \<noteq> []"
      by (auto simp add: scene_hits_Nil_iff)
    from v have "dist (?f (?ss ! n)) \<in> set (filter (inside minT maxT) (sphere_roots rnd (?ss ! n) ray))"
      by (rule valid_dist_in_roots)
    with mem have in_hits: "dist (?f (?ss ! n)) \<in> set (scene_hits rnd scene ray minT maxT)"
      unfolding set_scene_hits by blast
    from v have below: "flt (dist (?f (?ss ! n))) maxT"
      by (simp add: valid_iff_below_maxT)
    have min: "\<forall>t\<in>set (scene_hits rnd scene ray minT maxT). fle (dist (?f (?ss ! n))) t"
    proof
      fix t assume "t \<in> set (scene_hits rnd scene ray minT maxT)"
      then obtain s where s: "s \<in> set ?ss"
        and t: "t \<in> set (filter (inside minT maxT) (sphere_roots rnd s ray))"
        unfolding set_scene_hits by blast
      from mono t have le: "fle (dist (?f s)) t" by (rule Sphere_intersect_le_root)
      from s obtain k where "k < length ?ss" "?ss ! k = s" by (auto simp: in_set_conv_nth)
      with least have "\<not> flt (dist (?f s)) (dist (?f (?ss ! n)))" by blast
      then have "fle (dist (?f (?ss ! n))) (dist (?f s))"
        using below by (rule not_flt_imp_fle') (rule Sphere_intersect_dist_not_NaN)
      with le show "fle (dist (?f (?ss ! n))) t"
        by (cases "dist (?f (?ss ! n))"; cases "dist (?f s)"; cases t) simp_all
    qed
    from ne v in_hits min mem show ?thesis by (auto simp add: plain r)
  qed
  with plain show ?thesis by blast
qed

lemma z_example_intersect:
  "Sphere_intersect Fin (z_sphere c albedo) (z_ray a) minT maxT =
     (if inside minT maxT (Fin (c - a - 1)) then
        \<lparr>dist = Fin (c - a - 1), pos = rgb 0 0 (c - 1), normal = rgb 0 0 (- 1),
         color = albedo\<rparr>
      else if inside minT maxT (Fin (c - a + 1)) then
        \<lparr>dist = Fin (c - a + 1), pos = rgb 0 0 (c + 1), normal = rgb 0 0 1, color = albedo\<rparr>
      else noIntersection)"
  by (simp add: Sphere_intersect_unfold z_example_d z_example_t1 z_example_t2 z_example_hit)

lemma z_example_roots:
  "sphere_roots Fin (z_sphere c albedo) (z_ray a) = [Fin (c - a - 1), Fin (c - a + 1)]"
  by (simp add: sphere_roots_def z_example_d z_example_t1 z_example_t2)

theorem Scene_intersect_nearest_witness:
  "monotone_rounding Fin \<and>
   scene_hits Fin (spheres_only [z_sphere 5 (rgb 0 1 0), z_sphere 0 (rgb 1 0 0)])
     (z_ray (- 3)) (Fin 0) PInf = [Fin 7, Fin 9, Fin 2, Fin 4] \<and>
   Scene_intersect Fin (spheres_only [z_sphere 5 (rgb 0 1 0), z_sphere 0 (rgb 1 0 0)])
     (z_ray (- 3)) (Fin 0) PInf =
     \<lparr>dist = Fin 2, pos = rgb 0 0 (- 1), normal = rgb 0 0 (- 1), color = rgb 1 0 0\<rparr>"
  using Scene_intersect_nearest [OF monotone_rounding_Fin,
      of "spheres_only [z_sphere 5 (rgb 0 1 0), z_sphere 0 (rgb 1 0 0)]" "z_ray (- 3)"
         "Fin 0" PInf]
  by (simp add: monotone_rounding_Fin scene_hits_def z_example_roots inside_def
      Scene_intersect_plain_def plain_step_def z_example_intersect noIntersection_def
      INFINITY_def)

lemma empty_range: "fle maxT minT \<Longrightarrow> \<not> inside minT maxT t"
  unfolding inside_def using flt_fle_trans flt_trans flt_irrefl by blast

lemma Sphere_intersect_empty_range:
  "fle maxT minT \<Longrightarrow> Sphere_intersect rnd s ray minT maxT = noIntersection"
  by (simp add: Sphere_intersect_unfold empty_range)

lemma foldl_scene_step_empty_range:
  "fle (dist acc) minT \<Longrightarrow> foldl (scene_step rnd ray minT) acc ss = acc"
  by (induction ss) (simp_all add: scene_step_def Sphere_intersect_empty_range)

lemma any_sphere_empty_range:
  "fle maxT minT \<Longrightarrow> \<not> any_sphere rnd ss ray minT maxT"
  by (induction ss) (simp_all add: Sphere_intersectAny_unfold empty_range)

text \<open>
  C10. When \<open>minT >= maxT\<close> no parameter lies strictly between the bounds:
  \<^verbatim>\<open>Sphere::intersect\<close> and \<^verbatim>\<open>Scene::intersect\<close> return the no-intersection
  value, whose distance is infinity, and both \<^verbatim>\<open>intersectAny\<close> return false.
\<close>

theorem empty_range_no_intersection:
  assumes "fle maxT minT"
  shows "Sphere_intersect rnd s ray minT maxT = noIntersection \<and>
         Scene_intersect rnd scene ray minT maxT = noIntersection \<and>
         dist noIntersection = INFINITY \<and>
         \<not> Sphere_intersectAny rnd s ray minT maxT \<and>
         \<not> Scene_intersectAny rnd scene ray minT maxT"
  using assms
  by (simp add: Sphere_intersect_empty_range foldl_scene_step_empty_range
      any_sphere_empty_range Scene_intersect_def Scene_intersectAny_def
      Sphere_intersectAny_unfold empty_range flt_irrefl INFINITY_def)

theorem empty_range_no_intersection_witness:
  "fle (Fin 1) (Fin 5) \<and>
   Sphere_intersect Fin (z_sphere 0 (rgb 1 0 0)) (z_ray (- 3)) (Fin 5) (Fin 1) = noIntersection \<and>
   Scene_intersect Fin (spheres_only [z_sphere 0 (rgb 1 0 0)]) (z_ray (- 3)) (Fin 5) (Fin 1)
     = noIntersection \<and>
   \<not> Sphere_intersectAny Fin (z_sphere 0 (rgb 1 0 0)) (z_ray (- 3)) (Fin 5) (Fin 1) \<and>
   \<not> Scene_intersectAny Fin (spheres_only [z_sphere 0 (rgb 1 0 0)]) (z_ray (- 3)) (Fin 5)
       (Fin 1)"
  using empty_range_no_intersection [of "Fin 1" "Fin 5" Fin "z_sphere 0 (rgb 1 0 0)"
      "z_ray (- 3)" "spheres_only [z_sphere 0 (rgb 1 0 0)]"]
  by simp

text \<open>
  C8. Reorder invariance of \<^verbatim>\<open>Scene::intersect\<close>: when no two spheres of the
  collection are hit at equal distances, every permutation of the collection gives
  the same intersection record. The rounding function of the machine is monotone.
\<close>

theorem Scene_intersect_reorder:
  assumes mono: "monotone_rounding rnd"
    and perm: "mset (spheres scene') = mset (spheres scene)"
    and distinct_hits:
      "\<forall>i<length (spheres scene). \<forall>j<length (spheres scene).
         i \<noteq> j \<and> valid (Sphere_intersect rnd (spheres scene ! i) ray minT maxT) \<and>
         valid (Sphere_intersect rnd (spheres scene ! j) ray minT maxT) \<longrightarrow>
         dist (Sphere_intersect rnd (spheres scene ! i) ray minT maxT) \<noteq>
         dist (Sphere_intersect rnd (spheres scene ! j) ray minT maxT)"
  shows "Scene_intersect rnd scene' ray minT maxT = Scene_intersect rnd scene ray minT maxT"
proof -
  let ?f = "\<lambda>s. Sphere_intersect rnd s ray minT maxT"
  let ?ss = "spheres scene" and ?ss' = "spheres scene'"
  let ?P = "Scene_intersect_plain rnd scene ray minT maxT"
  let ?P' = "Scene_intersect_plain rnd scene' ray minT maxT"
  from perm have sets: "set ?ss' = set ?ss" by (rule mset_eq_setD)
  have "?P' = ?P"
    using Scene_intersect_plain_cases [of scene rnd ray minT maxT]
  proof (elim disjE conjE exE)
    assume none: "\<forall>s\<in>set ?ss. \<not> valid (?f s)" and r: "?P = noIntersection"
    from Scene_intersect_plain_cases [of scene' rnd ray minT maxT] none sets
    have "?P' = noIntersection" by (metis nth_mem)
    with r show ?thesis by simp
  next
    fix n
    assume n: "n < length ?ss" and r: "?P = ?f (?ss ! n)" and v: "valid (?f (?ss ! n))"
      and least: "\<forall>k<length ?ss. \<not> flt (dist (?f (?ss ! k))) (dist (?f (?ss ! n)))"
    from n sets have "\<not> (\<forall>s\<in>set ?ss'. \<not> valid (?f s))" using v nth_mem by blast
    with Scene_intersect_plain_cases [of scene' rnd ray minT maxT]
    obtain n' where n': "n' < length ?ss'" and r': "?P' = ?f (?ss' ! n')"
      and v': "valid (?f (?ss' ! n'))"
      and least': "\<forall>k<length ?ss'. \<not> flt (dist (?f (?ss' ! k))) (dist (?f (?ss' ! n')))"
      by blast
    from n' sets obtain m where m: "m < length ?ss" and sm: "?ss ! m = ?ss' ! n'"
      by (metis in_set_conv_nth nth_mem)
    from n sets obtain m' where m': "m' < length ?ss'" and sm': "?ss' ! m' = ?ss ! n"
      by (metis in_set_conv_nth nth_mem)
    from least m sm have a: "\<not> flt (dist (?f (?ss' ! n'))) (dist (?f (?ss ! n)))" by metis
    from least' m' sm' have b: "\<not> flt (dist (?f (?ss ! n))) (dist (?f (?ss' ! n')))" by metis
    from v have c: "flt (dist (?f (?ss ! n))) maxT" by (simp add: valid_iff_below_maxT)
    from v' have d: "flt (dist (?f (?ss' ! n'))) maxT" by (simp add: valid_iff_below_maxT)
    from b a c d have eq: "dist (?f (?ss ! n)) = dist (?f (?ss' ! n'))"
      by (rule flt_antisym_eq)
    have "n = m"
    proof (rule ccontr)
      assume "n \<noteq> m"
      moreover from v' sm have "valid (?f (?ss ! m))" by simp
      ultimately have "dist (?f (?ss ! n)) \<noteq> dist (?f (?ss ! m))"
        using distinct_hits n m v by blast
      with eq sm show False by simp
    qed
    with sm r r' show ?thesis by simp
  qed
  with mono show ?thesis by (simp add: Scene_intersect_eq_plain)
qed

theorem Scene_intersect_reorder_witness:
  "monotone_rounding Fin \<and>
   mset (spheres (spheres_only [z_sphere 0 (rgb 1 0 0), z_sphere 5 (rgb 0 1 0)])) =
   mset (spheres (spheres_only [z_sphere 5 (rgb 0 1 0), z_sphere 0 (rgb 1 0 0)])) \<and>
   dist (Sphere_intersect Fin (z_sphere 5 (rgb 0 1 0)) (z_ray (- 3)) (Fin 0) PInf) \<noteq>
   dist (Sphere_intersect Fin (z_sphere 0 (rgb 1 0 0)) (z_ray (- 3)) (Fin 0) PInf) \<and>
   Scene_intersect Fin (spheres_only [z_sphere 0 (rgb 1 0 0), z_sphere 5 (rgb 0 1 0)])
     (z_ray (- 3)) (Fin 0) PInf =
   Scene_intersect Fin (spheres_only [z_sphere 5 (rgb 0 1 0), z_sphere 0 (rgb 1 0 0)])
     (z_ray (- 3)) (Fin 0) PInf"
  using Scene_intersect_reorder [OF monotone_rounding_Fin,
      of "spheres_only [z_sphere 0 (rgb 1 0 0), z_sphere 5 (rgb 0 1 0)]"
         "spheres_only [z_sphere 5 (rgb 0 1 0), z_sphere 0 (rgb 1 0 0)]"
         "z_ray (- 3)" "Fin 0" PInf]
  by (simp add: monotone_rounding_Fin z_example_intersect inside_def less_Suc_eq
      nth_Cons')

lemma length_takeWhile_first:
  assumes "n < length xs" "\<not> P (xs ! n)" "\<forall>k<n. P (xs ! k)"
  shows "length (takeWhile P xs) = n"
proof -
  from assms have "takeWhile P xs = take n xs"
    by (intro takeWhile_eq_take_P_nth) simp_all
  with assms(1) show ?thesis by simp
qed

text \<open>
  C9, as amended. When two spheres are hit at the same distance \<open>t\<close> and no sphere of
  the collection is hit nearer than \<open>t\<close>, \<^verbatim>\<open>Scene::intersect\<close> returns the record
  of the first sphere of the collection that is hit at distance \<open>t\<close>. That sphere is
  the earlier of the two or comes before it, and it is the earlier of the two when no
  sphere before that one is hit at \<open>t\<close>. The two examples after the theorem show what
  the conditions exclude: two spheres tie at distance 9 behind a third one that is hit
  at distance 4, and three spheres tie at distance 9, where the record returned is not
  that of the earlier of the last two.
\<close>

theorem Scene_intersect_tie_earlier:
  assumes mono: "monotone_rounding rnd"
    and ij: "i < j" "j < length (spheres scene)"
    and v: "valid (Sphere_intersect rnd (spheres scene ! i) ray minT maxT)"
    and tie: "dist (Sphere_intersect rnd (spheres scene ! i) ray minT maxT) =
              dist (Sphere_intersect rnd (spheres scene ! j) ray minT maxT)"
    and nearest:
      "\<forall>k<length (spheres scene).
         \<not> flt (dist (Sphere_intersect rnd (spheres scene ! k) ray minT maxT))
               (dist (Sphere_intersect rnd (spheres scene ! i) ray minT maxT))"
  shows "Scene_intersect rnd scene ray minT maxT =
           Sphere_intersect rnd
             (spheres scene !
                first_hit_at rnd scene ray minT maxT
                  (dist (Sphere_intersect rnd (spheres scene ! i) ray minT maxT)))
             ray minT maxT \<and>
         dist (Scene_intersect rnd scene ray minT maxT) =
           dist (Sphere_intersect rnd (spheres scene ! i) ray minT maxT) \<and>
         first_hit_at rnd scene ray minT maxT
           (dist (Sphere_intersect rnd (spheres scene ! i) ray minT maxT)) \<le> i \<and>
         (\<forall>k < first_hit_at rnd scene ray minT maxT
                 (dist (Sphere_intersect rnd (spheres scene ! i) ray minT maxT)).
            dist (Sphere_intersect rnd (spheres scene ! k) ray minT maxT) \<noteq>
            dist (Sphere_intersect rnd (spheres scene ! i) ray minT maxT)) \<and>
         ((\<forall>k<i. dist (Sphere_intersect rnd (spheres scene ! k) ray minT maxT) \<noteq>
                  dist (Sphere_intersect rnd (spheres scene ! i) ray minT maxT)) \<longrightarrow>
          Scene_intersect rnd scene ray minT maxT =
            Sphere_intersect rnd (spheres scene ! i) ray minT maxT)"
proof -
  let ?f = "\<lambda>s. Sphere_intersect rnd s ray minT maxT"
  let ?ss = "spheres scene"
  let ?P = "Scene_intersect_plain rnd scene ray minT maxT"
  let ?t = "dist (?f (?ss ! i))"
  let ?m = "first_hit_at rnd scene ray minT maxT ?t"
  from ij have i: "i < length ?ss" by simp
  then have "?ss ! i \<in> set ?ss" by simp
  with v have "\<not> (\<forall>s\<in>set ?ss. \<not> valid (?f s))" by blast
  with Scene_intersect_plain_cases [of scene rnd ray minT maxT]
  obtain n where n: "n < length ?ss" and r: "?P = ?f (?ss ! n)"
    and vn: "valid (?f (?ss ! n))"
    and before: "\<forall>k<n. flt (dist (?f (?ss ! n))) (dist (?f (?ss ! k)))"
    and least: "\<forall>k<length ?ss. \<not> flt (dist (?f (?ss ! k))) (dist (?f (?ss ! n)))"
    by blast
  from least i have "\<not> flt ?t (dist (?f (?ss ! n)))" by blast
  moreover from nearest n have "\<not> flt (dist (?f (?ss ! n))) ?t" by blast
  moreover from v have "flt ?t INFINITY" by (simp add: valid_def)
  moreover from vn have "flt (dist (?f (?ss ! n))) INFINITY" by (simp add: valid_def)
  ultimately have dn: "dist (?f (?ss ! n)) = ?t" by (metis flt_antisym_eq)
  have earlier: "\<forall>k<n. dist (?f (?ss ! k)) \<noteq> ?t"
  proof (intro allI impI)
    fix k assume "k < n"
    with before have "flt (dist (?f (?ss ! n))) (dist (?f (?ss ! k)))" by blast
    with dn show "dist (?f (?ss ! k)) \<noteq> ?t" by (auto simp add: flt_irrefl)
  qed
  have m: "?m = n"
    unfolding first_hit_at_def using n dn earlier
    by (intro length_takeWhile_first) simp_all
  have ni: "n \<le> i"
  proof (rule ccontr)
    assume "\<not> n \<le> i"
    then have "i < n" by simp
    with earlier have "?t \<noteq> ?t" by blast
    then show False by simp
  qed
  have res: "Scene_intersect rnd scene ray minT maxT = ?f (?ss ! n)"
    using r mono by (simp add: Scene_intersect_eq_plain)
  have "Scene_intersect rnd scene ray minT maxT = ?f (?ss ! i)"
    if "\<forall>k<i. dist (?f (?ss ! k)) \<noteq> ?t"
  proof -
    from that dn have "\<not> n < i" by blast
    with ni have "n = i" by simp
    with res show ?thesis by simp
  qed
  with res dn ni earlier show ?thesis unfolding m by simp
qed

theorem Scene_intersect_tie_earlier_witness:
  "monotone_rounding Fin \<and>
   dist (Sphere_intersect Fin (z_sphere 5 (rgb 1 1 1)) (z_ray (- 10)) (Fin 0) PInf) = Fin 14 \<and>
   dist (Sphere_intersect Fin (z_sphere 0 (rgb 1 0 0)) (z_ray (- 10)) (Fin 0) PInf) = Fin 9 \<and>
   dist (Sphere_intersect Fin (z_sphere 0 (rgb 0 1 0)) (z_ray (- 10)) (Fin 0) PInf) = Fin 9 \<and>
   dist (Sphere_intersect Fin (z_sphere 0 (rgb 0 0 1)) (z_ray (- 10)) (Fin 0) PInf) = Fin 9 \<and>
   valid (Sphere_intersect Fin (z_sphere 0 (rgb 0 1 0)) (z_ray (- 10)) (Fin 0) PInf) \<and>
   first_hit_at Fin
     (spheres_only [z_sphere 5 (rgb 1 1 1), z_sphere 0 (rgb 1 0 0), z_sphere 0 (rgb 0 1 0),
                    z_sphere 0 (rgb 0 0 1)])
     (z_ray (- 10)) (Fin 0) PInf (Fin 9) = 1 \<and>
   Scene_intersect Fin
     (spheres_only [z_sphere 5 (rgb 1 1 1), z_sphere 0 (rgb 1 0 0), z_sphere 0 (rgb 0 1 0),
                    z_sphere 0 (rgb 0 0 1)])
     (z_ray (- 10)) (Fin 0) PInf =
   \<lparr>dist = Fin 9, pos = rgb 0 0 (- 1), normal = rgb 0 0 (- 1), color = rgb 1 0 0\<rparr>"
  using Scene_intersect_tie_earlier [OF monotone_rounding_Fin, of 2 3
      "spheres_only [z_sphere 5 (rgb 1 1 1), z_sphere 0 (rgb 1 0 0), z_sphere 0 (rgb 0 1 0),
                     z_sphere 0 (rgb 0 0 1)]"
      "z_ray (- 10)" "Fin 0" PInf]
    Scene_intersect_tie_earlier [OF monotone_rounding_Fin, of 1 2
      "spheres_only [z_sphere 5 (rgb 1 1 1), z_sphere 0 (rgb 1 0 0), z_sphere 0 (rgb 0 1 0),
                     z_sphere 0 (rgb 0 0 1)]"
      "z_ray (- 10)" "Fin 0" PInf]
  by (simp add: monotone_rounding_Fin first_hit_at_def z_example_intersect inside_def valid_def
      INFINITY_def less_Suc_eq nth_Cons')

theorem tie_behind_nearer_sphere_counterexample:
  "valid (Sphere_intersect Fin (z_sphere 0 (rgb 1 0 0)) (z_ray (- 10)) (Fin 0) PInf) \<and>
   valid (Sphere_intersect Fin (z_sphere 0 (rgb 0 1 0)) (z_ray (- 10)) (Fin 0) PInf) \<and>
   valid (Sphere_intersect Fin (z_sphere 0 (rgb 0 0 1)) (z_ray (- 10)) (Fin 0) PInf) \<and>
   dist (Sphere_intersect Fin (z_sphere 0 (rgb 1 0 0)) (z_ray (- 10)) (Fin 0) PInf) =
   dist (Sphere_intersect Fin (z_sphere 0 (rgb 0 1 0)) (z_ray (- 10)) (Fin 0) PInf) \<and>
   dist (Sphere_intersect Fin (z_sphere 0 (rgb 0 1 0)) (z_ray (- 10)) (Fin 0) PInf) =
   dist (Sphere_intersect Fin (z_sphere 0 (rgb 0 0 1)) (z_ray (- 10)) (Fin 0) PInf) \<and>
   inside (Fin 0) PInf
     (dist (Sphere_intersect Fin (z_sphere 0 (rgb 1 0 0)) (z_ray (- 10)) (Fin 0) PInf)) \<and>
   Scene_intersect Fin
     (spheres_only [z_sphere 0 (rgb 1 0 0), z_sphere 0 (rgb 0 1 0), z_sphere (- 5) (rgb 0 0 1)])
     (z_ray (- 10)) (Fin 0) PInf \<noteq>
   Sphere_intersect Fin (z_sphere 0 (rgb 1 0 0)) (z_ray (- 10)) (Fin 0) PInf \<and>
   Scene_intersect Fin
     (spheres_only [z_sphere 0 (rgb 1 0 0), z_sphere 0 (rgb 0 1 0), z_sphere 0 (rgb 0 0 1)])
     (z_ray (- 10)) (Fin 0) PInf \<noteq>
   Sphere_intersect Fin (z_sphere 0 (rgb 0 1 0)) (z_ray (- 10)) (Fin 0) PInf"
  by (simp add: Scene_intersect_def scene_step_def z_example_intersect inside_def valid_def
      INFINITY_def noIntersection_def rgb_def)

section \<open>The transparency integrator\<close>

lemma fmul_one_left: "representable rnd v \<Longrightarrow> fmul rnd (Fin 1) v = v"
  by (cases v) (simp_all add: representable_def signed_inf_def)

lemma vmul_one_left: "representable3 rnd v \<Longrightarrow> vmul rnd (vec3_of (Fin 1)) v = v"
  by (simp add: representable3_def vmul_def vec3_of_def fmul_one_left)

lemma transparency_loop_escape:
  "k < n \<Longrightarrow>
   (\<forall>j<k. valid (Scene_intersect rnd scene (snd ((advance rnd scene ^^ j) st)) (Fin 0) INFINITY)) \<Longrightarrow>
   \<not> valid (Scene_intersect rnd scene (snd ((advance rnd scene ^^ k) st)) (Fin 0) INFINITY) \<Longrightarrow>
   transparency_loop rnd scene n (fst st) (snd st) = fst ((advance rnd scene ^^ k) st)"
proof (induction n arbitrary: k st)
  case 0
  then show ?case by simp
next
  case (Suc n)
  show ?case
  proof (cases k)
    case 0
    with Suc.prems show ?thesis by simp
  next
    case (Suc k')
    from Suc.prems(2) Suc have v0: "valid (Scene_intersect rnd scene (snd st) (Fin 0) INFINITY)"
      by (auto dest: spec [of _ 0])
    have step: "transparency_loop rnd scene (Suc n) (fst st) (snd st) =
        transparency_loop rnd scene n (fst (advance rnd scene st)) (snd (advance rnd scene st))"
      using v0 by (simp add: advance_def facing_normal_def against_ray_def Let_def)
    have "transparency_loop rnd scene n (fst (advance rnd scene st)) (snd (advance rnd scene st)) =
        fst ((advance rnd scene ^^ k') (advance rnd scene st))"
    proof (rule Suc.IH)
      from Suc.prems(1) Suc show "k' < n" by simp
    next
      show "\<forall>j<k'. valid (Scene_intersect rnd scene
            (snd ((advance rnd scene ^^ j) (advance rnd scene st))) (Fin 0) INFINITY)"
      proof (intro allI impI)
        fix j assume "j < k'"
        with Suc have "Suc j < k" by simp
        with Suc.prems(2) show "valid (Scene_intersect rnd scene
            (snd ((advance rnd scene ^^ j) (advance rnd scene st))) (Fin 0) INFINITY)"
          by (auto simp add: funpow_swap1 dest: spec [of _ "Suc j"])
      qed
    next
      from Suc.prems(3) Suc show "\<not> valid (Scene_intersect rnd scene
            (snd ((advance rnd scene ^^ k') (advance rnd scene st))) (Fin 0) INFINITY)"
        by (simp add: funpow_swap1)
    qed
    with step Suc show ?thesis by (simp add: funpow_swap1)
  qed
qed

lemma transparency_loop_exhausted:
  "(\<forall>j<n. valid (Scene_intersect rnd scene (snd ((advance rnd scene ^^ j) st)) (Fin 0) INFINITY)) \<Longrightarrow>
   transparency_loop rnd scene n (fst st) (snd st) = vec3_of (Fin 0)"
proof (induction n arbitrary: st)
  case 0
  show ?case by simp
next
  case (Suc n)
  from Suc.prems have v0: "valid (Scene_intersect rnd scene (snd st) (Fin 0) INFINITY)"
    by (auto dest: spec [of _ 0])
  have step: "transparency_loop rnd scene (Suc n) (fst st) (snd st) =
      transparency_loop rnd scene n (fst (advance rnd scene st)) (snd (advance rnd scene st))"
    using v0 by (simp add: advance_def facing_normal_def against_ray_def Let_def)
  have "transparency_loop rnd scene n (fst (advance rnd scene st)) (snd (advance rnd scene st)) =
      vec3_of (Fin 0)"
  proof (rule Suc.IH, intro allI impI)
    fix j assume "j < n"
    then have "Suc j < Suc n" by simp
    with Suc.prems show "valid (Scene_intersect rnd scene
        (snd ((advance rnd scene ^^ j) (advance rnd scene st))) (Fin 0) INFINITY)"
      by (auto simp add: funpow_swap1 dest: spec [of _ "Suc j"])
  qed
  with step show ?case by simp
qed

text \<open>Negation commutes with the operations when the rounding is symmetric.\<close>

lemma fmul_fneg_right:
  "symmetric_rounding rnd \<Longrightarrow> fmul rnd a (fneg b) = fneg (fmul rnd a b)"
  by (cases a; cases b) (auto simp add: symmetric_rounding_def signed_inf_def)

lemma fadd_fneg_fneg:
  "symmetric_rounding rnd \<Longrightarrow> fadd rnd (fneg a) (fneg b) = fneg (fadd rnd a b)"
proof (cases a; cases b)
  fix u v assume sym: "symmetric_rounding rnd" and ab: "a = Fin u" "b = Fin v"
  from sym have "rnd (- (u + v)) = fneg (rnd (u + v))"
    unfolding symmetric_rounding_def by blast
  moreover have "- u + - v = - (u + v)" by simp
  ultimately have "rnd (- u + - v) = fneg (rnd (u + v))" by (simp only:)
  with ab show ?thesis by (simp only: fneg.simps fadd.simps)
qed simp_all

lemma dot_vneg:
  "symmetric_rounding rnd \<Longrightarrow> dot rnd d (vneg n) = fneg (dot rnd d n)"
  by (simp add: dot_def vneg_def fmul_fneg_right fadd_fneg_fneg)

lemma flt_zero_fneg: "flt (Fin 0) (fneg c) = flt c (Fin 0)"
  by (cases c) simp_all

lemma against_ray_cases: "against_ray rnd d n = n \<or> against_ray rnd d n = vneg n"
  by (simp add: against_ray_def)

lemma against_ray_not_along:
  assumes "symmetric_rounding rnd"
  shows "\<not> flt (Fin 0) (dot rnd d (against_ray rnd d n))"
proof (cases "flt (dot rnd d n) (Fin 0)")
  case True
  then have "\<not> flt (Fin 0) (dot rnd d n)" by (rule flt_not_sym)
  with True show ?thesis by (simp add: against_ray_def)
next
  case False
  with assms show ?thesis by (simp add: against_ray_def dot_vneg flt_zero_fneg)
qed

lemma against_ray_cosine:
  assumes "symmetric_rounding rnd" "dot rnd d n \<noteq> NaN"
  shows "fle (dot rnd d (against_ray rnd d n)) (Fin 0)"
proof (cases "flt (dot rnd d n) (Fin 0)")
  case True
  then show ?thesis by (simp add: against_ray_def flt_imp_fle)
next
  case False
  with assms show ?thesis
    by (cases "dot rnd d n") (simp_all add: against_ray_def dot_vneg)
qed

text \<open>
  C4. \<^verbatim>\<open>TransparencyIntegrator::radiance\<close> starts from colour \<open>(1,1,1)\<close> on the
  primary ray. Each segment finds the nearest hit in \<open>(0, infinity)\<close>; crossing it
  multiplies the colour componentwise by the albedo of the hit, and the next ray
  starts at \<open>hitPosition - EPSILON * orientedNormal\<close> with the same direction, where
  the oriented normal is the normal of the hit or its negation, kept exactly when its
  cosine with the ray is below zero: the cosine of the oriented normal with the ray
  is never above zero, and it is at most zero when the cosine of the normal is a
  number (for a symmetric rounding, as \<open>binary32\<close> is). If segment \<open>k\<close>, for some
  \<open>k\<close> below 11, is the first whose ray hits nothing, the result is the colour
  accumulated over the \<open>k\<close> crossings; if the first 11 segments all hit, the result is
  black. In particular two crossings of surfaces of albedo \<open>a\<close> followed by an escape
  give the componentwise product \<open>a * a\<close> (the product \<open>1 * a\<close> is \<open>a\<close> for an albedo
  that is a \<^verbatim>\<open>float\<close>).
\<close>

theorem Transparency_radiance_segments:
  "segment rnd scene r 0 = (vec3_of (Fin 1), r) \<and>
   fst (segment rnd scene r (Suc k)) =
     vmul rnd (fst (segment rnd scene r k)) (color (segment_hit rnd scene r k)) \<and>
   snd (segment rnd scene r (Suc k)) =
     \<lparr>ray_o = vsub rnd (pos (segment_hit rnd scene r k))
        (scalev rnd (EPSILON rnd)
           (against_ray rnd (ray_d (snd (segment rnd scene r k)))
              (normal (segment_hit rnd scene r k)))),
      ray_d = ray_d (snd (segment rnd scene r k))\<rparr> \<and>
   (against_ray rnd d n = n \<or> against_ray rnd d n = vneg n) \<and>
   (flt (dot rnd d n) (Fin 0) \<longrightarrow> against_ray rnd d n = n) \<and>
   (\<not> flt (dot rnd d n) (Fin 0) \<longrightarrow> against_ray rnd d n = vneg n) \<and>
   (symmetric_rounding rnd \<longrightarrow> \<not> flt (Fin 0) (dot rnd d (against_ray rnd d n))) \<and>
   (symmetric_rounding rnd \<and> dot rnd d n \<noteq> NaN \<longrightarrow>
      fle (dot rnd d (against_ray rnd d n)) (Fin 0)) \<and>
   (k < 11 \<and> (\<forall>j<k. \<not> escapes rnd scene r j) \<and> escapes rnd scene r k \<longrightarrow>
      Transparency_radiance rnd scene r = fst (segment rnd scene r k)) \<and>
   ((\<forall>j<11. \<not> escapes rnd scene r j) \<longrightarrow>
      Transparency_radiance rnd scene r = vec3_of (Fin 0)) \<and>
   (representable3 rnd a \<and>
    \<not> escapes rnd scene r 0 \<and> color (segment_hit rnd scene r 0) = a \<and>
    \<not> escapes rnd scene r 1 \<and> color (segment_hit rnd scene r 1) = a \<and>
    escapes rnd scene r 2 \<longrightarrow>
      Transparency_radiance rnd scene r = vmul rnd a a)"
proof -
  let ?st = "(vec3_of (Fin 1), r)"
  have step: "segment rnd scene r (Suc k) = advance rnd scene (segment rnd scene r k)" for k
    by (simp add: segment_def)
  have col: "fst (segment rnd scene r (Suc k)) =
      vmul rnd (fst (segment rnd scene r k)) (color (segment_hit rnd scene r k))" for k
    by (simp add: step advance_def segment_hit_def Let_def)
  have ray: "snd (segment rnd scene r (Suc k)) =
     \<lparr>ray_o = vsub rnd (pos (segment_hit rnd scene r k))
        (scalev rnd (EPSILON rnd)
           (against_ray rnd (ray_d (snd (segment rnd scene r k)))
              (normal (segment_hit rnd scene r k)))),
      ray_d = ray_d (snd (segment rnd scene r k))\<rparr>"
    by (simp add: step advance_def segment_hit_def Let_def)
  have kept: "(flt (dot rnd d n) (Fin 0) \<longrightarrow> against_ray rnd d n = n) \<and>
      (\<not> flt (dot rnd d n) (Fin 0) \<longrightarrow> against_ray rnd d n = vneg n)"
    by (simp add: against_ray_def)
  have esc: "k < 11 \<Longrightarrow> (\<forall>j<k. \<not> escapes rnd scene r j) \<Longrightarrow> escapes rnd scene r k \<Longrightarrow>
      Transparency_radiance rnd scene r = fst (segment rnd scene r k)" for k
    using transparency_loop_escape [of k 11 rnd scene ?st]
    by (simp add: Transparency_radiance_def segment_def escapes_def segment_hit_def)
  have exh: "(\<forall>j<11. \<not> escapes rnd scene r j) \<Longrightarrow>
      Transparency_radiance rnd scene r = vec3_of (Fin 0)"
    using transparency_loop_exhausted [of 11 rnd scene ?st]
    by (simp add: Transparency_radiance_def segment_def escapes_def segment_hit_def)
  have two: "Transparency_radiance rnd scene r = vmul rnd a a"
    if a: "representable3 rnd a" and e0: "\<not> escapes rnd scene r 0"
      and c0: "color (segment_hit rnd scene r 0) = a"
      and e1: "\<not> escapes rnd scene r 1"
      and c1: "color (segment_hit rnd scene r 1) = a"
      and e2: "escapes rnd scene r 2"
  proof -
    from e0 e1 have "\<forall>j<2. \<not> escapes rnd scene r j" by (simp add: less_2_cases_iff)
    with e2 have "Transparency_radiance rnd scene r = fst (segment rnd scene r 2)"
      by (intro esc) simp_all
    also have "\<dots> = vmul rnd (fst (segment rnd scene r 1)) a"
      using col [of 1] c1 by (simp add: numeral_2_eq_2)
    also have "fst (segment rnd scene r 1) = vmul rnd (vec3_of (Fin 1)) a"
      using col [of 0] c0 by (simp add: segment_def)
    also have "\<dots> = a" using a by (simp add: vmul_one_left)
    finally show ?thesis .
  qed
  have start: "segment rnd scene r 0 = ?st" by (simp add: segment_def)
  show ?thesis
    using start col [of k] ray against_ray_cases [of rnd d n] kept
      against_ray_not_along [of rnd d n] against_ray_cosine [of rnd d n] esc exh two
    by simp
qed

lemma Scene_intersect_single:
  "Scene_intersect rnd (spheres_only [s]) ray minT maxT = Sphere_intersect rnd s ray minT maxT"
proof (cases "flt (dist (Sphere_intersect rnd s ray minT maxT)) maxT")
  case True
  then show ?thesis by (simp add: Scene_intersect_def scene_step_def)
next
  case False
  with Sphere_intersect_self_bound [of rnd s ray minT maxT] show ?thesis
    by (simp add: Scene_intersect_def scene_step_def flt_irrefl)
qed

lemma z_example_nearest:
  "Scene_intersect Fin (spheres_only [z_sphere c albedo]) (z_ray a) (Fin 0) INFINITY =
     (if 0 < c - a - 1 then
        \<lparr>dist = Fin (c - a - 1), pos = rgb 0 0 (c - 1), normal = rgb 0 0 (- 1),
         color = albedo\<rparr>
      else if 0 < c - a + 1 then
        \<lparr>dist = Fin (c - a + 1), pos = rgb 0 0 (c + 1), normal = rgb 0 0 1, color = albedo\<rparr>
      else noIntersection)"
  by (simp add: Scene_intersect_single z_example_intersect inside_def INFINITY_def)

lemma z_example_valid:
  "valid (Scene_intersect Fin (spheres_only [z_sphere c albedo]) (z_ray a) (Fin 0) INFINITY)
     \<longleftrightarrow> 0 < c - a - 1 \<or> 0 < c - a + 1"
  unfolding z_example_nearest by (simp add: valid_def INFINITY_def)

theorem Transparency_radiance_segments_witness:
  "symmetric_rounding Fin \<and>
   representable3 Fin (rgb (1/2) (1/4) 1) \<and>
   segment_hit Fin (spheres_only [z_sphere 0 (rgb (1/2) (1/4) 1)]) (z_ray (- 3)) 0 =
     \<lparr>dist = Fin 2, pos = rgb 0 0 (- 1), normal = rgb 0 0 (- 1),
      color = rgb (1/2) (1/4) 1\<rparr> \<and>
   against_ray Fin (rgb 0 0 1) (rgb 0 0 (- 1)) = rgb 0 0 (- 1) \<and>
   segment Fin (spheres_only [z_sphere 0 (rgb (1/2) (1/4) 1)]) (z_ray (- 3)) 1 =
     (rgb (1/2) (1/4) 1, \<lparr>ray_o = rgb 0 0 (- 9999 / 10000), ray_d = rgb 0 0 1\<rparr>) \<and>
   segment_hit Fin (spheres_only [z_sphere 0 (rgb (1/2) (1/4) 1)]) (z_ray (- 3)) 1 =
     \<lparr>dist = Fin (19999 / 10000), pos = rgb 0 0 1, normal = rgb 0 0 1,
      color = rgb (1/2) (1/4) 1\<rparr> \<and>
   against_ray Fin (rgb 0 0 1) (rgb 0 0 1) = rgb 0 0 (- 1) \<and>
   segment Fin (spheres_only [z_sphere 0 (rgb (1/2) (1/4) 1)]) (z_ray (- 3)) 2 =
     (rgb (1/4) (1/16) 1, \<lparr>ray_o = rgb 0 0 (10001 / 10000), ray_d = rgb 0 0 1\<rparr>) \<and>
   \<not> escapes Fin (spheres_only [z_sphere 0 (rgb (1/2) (1/4) 1)]) (z_ray (- 3)) 0 \<and>
   \<not> escapes Fin (spheres_only [z_sphere 0 (rgb (1/2) (1/4) 1)]) (z_ray (- 3)) 1 \<and>
   escapes Fin (spheres_only [z_sphere 0 (rgb (1/2) (1/4) 1)]) (z_ray (- 3)) 2 \<and>
   Transparency_radiance Fin (spheres_only [z_sphere 0 (rgb (1/2) (1/4) 1)]) (z_ray (- 3)) =
     rgb (1/4) (1/16) 1"
proof -
  let ?alb = "rgb (1/2) (1/4) 1"
  let ?sc = "spheres_only [z_sphere 0 ?alb]"
  let ?r = "z_ray (- 3)"
  note seg = Transparency_radiance_segments [where rnd = Fin and scene = ?sc and r = ?r
      and a = ?alb]
  have sym: "symmetric_rounding Fin" by (simp add: symmetric_rounding_def)
  have a: "representable3 Fin ?alb"
    by (simp add: representable3_def representable_def rgb_def)
  have s0: "segment Fin ?sc ?r 0 = (vec3_of (Fin 1), ?r)" using seg [of 0] by simp
  have h0: "segment_hit Fin ?sc ?r 0 =
      \<lparr>dist = Fin 2, pos = rgb 0 0 (- 1), normal = rgb 0 0 (- 1), color = ?alb\<rparr>"
    by (simp add: segment_hit_def s0 z_example_nearest)
  have o0: "against_ray Fin (rgb 0 0 1) (rgb 0 0 (- 1)) = rgb 0 0 (- 1)"
    by (simp add: against_ray_def dot_def rgb_def)
  have c1: "fst (segment Fin ?sc ?r 1) = ?alb"
    using seg [of 0 "rgb 0 0 1" "rgb 0 0 1"] unfolding s0 h0
    by (simp add: vmul_one_left [OF a])
  have r1: "snd (segment Fin ?sc ?r 1) =
      \<lparr>ray_o = rgb 0 0 (- 9999 / 10000), ray_d = rgb 0 0 1\<rparr>"
    using seg [of 0 "rgb 0 0 1" "rgb 0 0 1"] unfolding s0 h0
    by (simp add: z_ray_def o0) (simp add: rgb_def vsub_def scalev_def vneg_def EPSILON_def)
  have s1: "segment Fin ?sc ?r 1 = (?alb, z_ray (- 9999 / 10000))"
    using c1 r1 by (simp add: prod_eq_iff z_ray_def)
  have h1: "segment_hit Fin ?sc ?r 1 =
      \<lparr>dist = Fin (19999 / 10000), pos = rgb 0 0 1, normal = rgb 0 0 1, color = ?alb\<rparr>"
    unfolding segment_hit_def s1 by (simp add: z_example_nearest)
  have o1: "against_ray Fin (rgb 0 0 1) (rgb 0 0 1) = rgb 0 0 (- 1)"
    by (simp add: against_ray_def dot_def rgb_def vneg_def)
  have c2: "fst (segment Fin ?sc ?r 2) = rgb (1/4) (1/16) 1"
    using seg [of 1 "rgb 0 0 1" "rgb 0 0 1"] unfolding c1 r1 h1
    by (simp add: numeral_2_eq_2) (simp add: vmul_def rgb_def)
  have r2: "snd (segment Fin ?sc ?r 2) =
      \<lparr>ray_o = rgb 0 0 (10001 / 10000), ray_d = rgb 0 0 1\<rparr>"
    using seg [of 1 "rgb 0 0 1" "rgb 0 0 1"] unfolding c1 r1 h1
    by (simp add: numeral_2_eq_2 o1)
      (simp add: rgb_def vsub_def scalev_def vneg_def EPSILON_def)
  have s2: "segment Fin ?sc ?r 2 = (rgb (1/4) (1/16) 1, z_ray (10001 / 10000))"
    using c2 r2 by (simp add: prod_eq_iff z_ray_def)
  have e0: "\<not> escapes Fin ?sc ?r 0" by (simp add: escapes_def h0 valid_def INFINITY_def)
  have e1: "\<not> escapes Fin ?sc ?r 1"
    unfolding escapes_def h1 by (simp add: valid_def INFINITY_def)
  have e2: "escapes Fin ?sc ?r 2"
    unfolding escapes_def segment_hit_def s2 by (simp add: z_example_valid)
  have "Transparency_radiance Fin ?sc ?r = vmul Fin ?alb ?alb"
    using seg [of 2 "rgb 0 0 1" "rgb 0 0 1"] a e0 e1 e2 unfolding h0 h1 by simp
  also have "\<dots> = rgb (1/4) (1/16) 1" by (simp add: vmul_def rgb_def)
  finally show ?thesis using sym a h0 o0 s1 h1 o1 s2 e0 e1 e2 by (simp add: z_ray_def)
qed

section \<open>The directions of the light samples\<close>

lemma fmul_fneg_fneg: "fmul rnd (fneg a) (fneg a) = fmul rnd a a"
  by (cases a) simp_all

lemma length_v_vneg: "length_v rnd (vneg v) = length_v rnd v"
  by (simp add: length_v_def lengthSquared_def dot_def vneg_def fmul_fneg_fneg)

lemma direction_ConeLight:
  "direction (ConeLight_sampleRadiance rnd light p) =
   direction (PointLight_sampleRadiance rnd
     \<lparr>pl_intensity = cone_intensity light, pl_origin = cone_origin light\<rparr> p)"
  by (simp add: ConeLight_sampleRadiance_def Let_def)

lemma direction_CylinderLight:
  "direction (CylinderLight_sampleRadiance rnd light p) = vneg (cyl_direction light)"
  by (simp add: CylinderLight_sampleRadiance_def DirectionalLight_sampleRadiance_def Let_def)

lemma sum_squares_pos:
  fixes u v w :: real
  assumes "\<not> (u = 0 \<and> v = 0 \<and> w = 0)"
  shows "0 < u * u + v * v + w * w"
proof -
  have "0 \<le> u * u" "0 \<le> v * v" "0 \<le> w * w" by simp_all
  moreover from assms have "0 < u * u \<or> 0 < v * v \<or> 0 < w * w"
    by (auto simp add: zero_less_mult_iff neq_iff)
  ultimately show ?thesis by linarith
qed

lemma scaled_squares:
  fixes u v w k :: real
  shows "u * k * (u * k) + v * k * (v * k) + w * k * (w * k) = (u * u + v * v + w * w) * (k * k)"
  by (simp add: algebra_simps)

lemma normalized_length:
  fixes u v w :: real
  assumes "0 < u * u + v * v + w * w"
  shows "sqrt (u * (1 / sqrt (u * u + v * v + w * w)) * (u * (1 / sqrt (u * u + v * v + w * w))) +
              v * (1 / sqrt (u * u + v * v + w * w)) * (v * (1 / sqrt (u * u + v * v + w * w))) +
              w * (1 / sqrt (u * u + v * v + w * w)) * (w * (1 / sqrt (u * u + v * v + w * w)))) = 1"
proof -
  let ?s = "u * u + v * v + w * w"
  have ss: "sqrt ?s * sqrt ?s = ?s" using assms by simp
  have "1 / sqrt ?s * (1 / sqrt ?s) = 1 / (sqrt ?s * sqrt ?s)" by simp
  also have "\<dots> = 1 / ?s" by (simp only: ss)
  finally have kk: "1 / sqrt ?s * (1 / sqrt ?s) = 1 / ?s" .
  have "?s * (1 / sqrt ?s * (1 / sqrt ?s)) = 1" using assms by (simp only: kk) simp
  then show ?thesis by (simp only: scaled_squares real_sqrt_one)
qed

lemma PointLight_direction_exact:
  assumes "\<not> (a' = a \<and> b' = b \<and> c' = c)"
  shows "direction (PointLight_sampleRadiance Fin \<lparr>pl_intensity = i, pl_origin = rgb a' b' c'\<rparr>
           (rgb a b c)) =
         vscale Fin (vsub Fin (rgb a' b' c') (rgb a b c))
           (Fin (1 / sqrt ((a' - a) * (a' - a) + (b' - b) * (b' - b) + (c' - c) * (c' - c))))"
proof -
  from assms have "0 < (a' - a) * (a' - a) + (b' - b) * (b' - b) + (c' - c) * (c' - c)"
    by (intro sum_squares_pos) simp
  then show ?thesis
    by (simp add: PointLight_sampleRadiance_def Let_def rgb_def vsub_def length_v_def
        lengthSquared_def dot_def vdivs_def vscale_def)
qed

lemma PointLight_unit_exact:
  assumes "\<not> (a' = a \<and> b' = b \<and> c' = c)"
  shows "length_v Fin (direction (PointLight_sampleRadiance Fin
           \<lparr>pl_intensity = i, pl_origin = rgb a' b' c'\<rparr> (rgb a b c))) = Fin 1"
proof -
  from assms have s: "0 < (a' - a) * (a' - a) + (b' - b) * (b' - b) + (c' - c) * (c' - c)"
    by (intro sum_squares_pos) simp
  show ?thesis
    unfolding PointLight_direction_exact [OF assms]
    using s normalized_length [OF s]
    by (simp add: rgb_def vsub_def vscale_def length_v_def lengthSquared_def dot_def)
qed

text \<open>
  C7, as amended. The direction of a light sample, by light variant. An ambient light
  returns the zero vector. A directional light and a cylinder light return the negated
  direction of the light, not normalised: its length is that of the direction the
  light was built with, for every rounding function. A cone light returns the
  direction of the point light at its position. A point light returns the vector from
  the shading point to the light times the reciprocal of its length, each as computed
  (\<^verbatim>\<open>vec3 /= float\<close> multiplies by \<^verbatim>\<open>1.0f / scalar\<close>). In exact
  arithmetic (\<open>rnd = Fin\<close>), for a shading point different from the position of the
  light, that is the vector from the shading point to the light times the positive
  factor \<open>1 / |lightPosition - point|\<close>, and its length is 1. The example after the
  witness shows directions that are not of unit length: that of an ambient light,
  that of a directional light and of a cylinder light built with the direction
  \<open>(0,0,-2)\<close>, and, in single precision, that of the point light and of the cone light
  at \<open>(1,1,0)\<close> seen from the origin, whose components are \<open>11863283 / 16777216\<close>,
  \<open>11863283 / 16777216\<close> and \<open>0\<close>.
\<close>

theorem LightSample_directions:
  "direction (AmbientLight_sampleRadiance amb p) = vec3_of (Fin 0) \<and>
   direction (DirectionalLight_sampleRadiance dl p) = vneg (dl_direction dl) \<and>
   length_v rnd (direction (DirectionalLight_sampleRadiance dl p)) =
     length_v rnd (dl_direction dl) \<and>
   direction (CylinderLight_sampleRadiance rnd cyl p) = vneg (cyl_direction cyl) \<and>
   length_v rnd (direction (CylinderLight_sampleRadiance rnd cyl p)) =
     length_v rnd (cyl_direction cyl) \<and>
   direction (ConeLight_sampleRadiance rnd cone p) =
     direction (PointLight_sampleRadiance rnd
       \<lparr>pl_intensity = cone_intensity cone, pl_origin = cone_origin cone\<rparr> p) \<and>
   (\<not> (a' = a \<and> b' = b \<and> c' = c) \<longrightarrow>
      direction (PointLight_sampleRadiance Fin \<lparr>pl_intensity = i, pl_origin = rgb a' b' c'\<rparr>
        (rgb a b c)) =
        vscale Fin (vsub Fin (rgb a' b' c') (rgb a b c))
          (Fin (1 / sqrt ((a' - a) * (a' - a) + (b' - b) * (b' - b) + (c' - c) * (c' - c)))) \<and>
      0 < 1 / sqrt ((a' - a) * (a' - a) + (b' - b) * (b' - b) + (c' - c) * (c' - c)) \<and>
      length_v Fin (direction (PointLight_sampleRadiance Fin
        \<lparr>pl_intensity = i, pl_origin = rgb a' b' c'\<rparr> (rgb a b c))) = Fin 1) \<and>
   direction (PointLight_sampleRadiance rnd pl p) =
     vdivs rnd (vsub rnd (pl_origin pl) p) (length_v rnd (vsub rnd (pl_origin pl) p))"
proof -
  have "0 < 1 / sqrt ((a' - a) * (a' - a) + (b' - b) * (b' - b) + (c' - c) * (c' - c))"
    if "\<not> (a' = a \<and> b' = b \<and> c' = c)"
  proof -
    from that have "0 < (a' - a) * (a' - a) + (b' - b) * (b' - b) + (c' - c) * (c' - c)"
      by (intro sum_squares_pos) simp
    then show ?thesis by simp
  qed
  then show ?thesis
    using PointLight_direction_exact [of a' a b' b c' c i]
      PointLight_unit_exact [of a' a b' b c' c i]
    by (simp add: AmbientLight_sampleRadiance_def DirectionalLight_sampleRadiance_def
        PointLight_sampleRadiance_def Let_def direction_CylinderLight direction_ConeLight
        length_v_vneg)
qed

theorem LightSample_directions_witness:
  "\<not> ((0::real) = 0 \<and> (0::real) = 0 \<and> (- 3::real) = - 1) \<and>
   direction (PointLight_sampleRadiance Fin \<lparr>pl_intensity = rgb 1 1 1, pl_origin = rgb 0 0 (- 3)\<rparr>
     (rgb 0 0 (- 1))) = rgb 0 0 (- 1) \<and>
   length_v Fin (direction (PointLight_sampleRadiance Fin
     \<lparr>pl_intensity = rgb 1 1 1, pl_origin = rgb 0 0 (- 3)\<rparr> (rgb 0 0 (- 1)))) = Fin 1"
  using LightSample_directions [of "\<lparr>amb_radiance = rgb 0 0 0\<rparr>" "rgb 0 0 (- 1)"
      "\<lparr>dl_radiosity = rgb 1 1 1, dl_direction = rgb 0 0 1\<rparr>" Fin
      "\<lparr>cyl_radiosity = rgb 1 1 1, cyl_origin = rgb 0 0 0, cyl_direction = rgb 0 0 1,
        cyl_radius = Fin 1\<rparr>"
      "\<lparr>cone_intensity = rgb 1 1 1, cone_origin = rgb 0 0 0, cone_direction = rgb 0 0 1,
        cosPhi = Fin 0\<rparr>"
      0 0 0 0 "- 3" "- 1" "rgb 1 1 1"
      "\<lparr>pl_intensity = rgb 1 1 1, pl_origin = rgb 0 0 (- 3)\<rparr>"]
  by (simp add: rgb_def vsub_def vscale_def vdivs_def length_v_def lengthSquared_def dot_def)

lemma binary32_diagonal_direction:
  "direction (PointLight_sampleRadiance binary32
      \<lparr>pl_intensity = rgb 1 1 1, pl_origin = rgb 1 1 0\<rparr> (rgb 0 0 0)) =
     rgb (11863283 / 16777216) (11863283 / 16777216) 0"
  by (simp add: PointLight_sampleRadiance_def Let_def rgb_def vsub_def length_v_def
      lengthSquared_def dot_def vdivs_def binary32_zero binary32_direction_values)

theorem non_unit_direction_counterexample:
  "direction (AmbientLight_sampleRadiance \<lparr>amb_radiance = rgb 1 1 1\<rparr> (rgb 0 0 0)) =
     rgb 0 0 0 \<and>
   length_v Fin (direction (AmbientLight_sampleRadiance \<lparr>amb_radiance = rgb 1 1 1\<rparr> (rgb 0 0 0)))
     \<noteq> Fin 1 \<and>
   direction (DirectionalLight_sampleRadiance
      \<lparr>dl_radiosity = rgb 1 1 1, dl_direction = rgb 0 0 (- 2)\<rparr> (rgb 0 0 0)) = rgb 0 0 2 \<and>
   length_v Fin (direction (DirectionalLight_sampleRadiance
      \<lparr>dl_radiosity = rgb 1 1 1, dl_direction = rgb 0 0 (- 2)\<rparr> (rgb 0 0 0))) \<noteq> Fin 1 \<and>
   direction (PointLight_sampleRadiance binary32
      \<lparr>pl_intensity = rgb 1 1 1, pl_origin = rgb 1 1 0\<rparr> (rgb 0 0 0)) =
     rgb (11863283 / 16777216) (11863283 / 16777216) 0 \<and>
   length_v binary32 (direction (PointLight_sampleRadiance binary32
      \<lparr>pl_intensity = rgb 1 1 1, pl_origin = rgb 1 1 0\<rparr> (rgb 0 0 0))) \<noteq> Fin 1 \<and>
   lengthSquared Fin (direction (PointLight_sampleRadiance binary32
      \<lparr>pl_intensity = rgb 1 1 1, pl_origin = rgb 1 1 0\<rparr> (rgb 0 0 0))) \<noteq> Fin 1 \<and>
   length_v Fin (direction (CylinderLight_sampleRadiance Fin
      \<lparr>cyl_radiosity = rgb 1 1 1, cyl_origin = rgb 0 0 0, cyl_direction = rgb 0 0 (- 2),
       cyl_radius = Fin 1\<rparr> (rgb 0 0 0))) \<noteq> Fin 1 \<and>
   length_v binary32 (direction (ConeLight_sampleRadiance binary32
      \<lparr>cone_intensity = rgb 1 1 1, cone_origin = rgb 1 1 0, cone_direction = rgb 0 0 1,
       cosPhi = Fin 0\<rparr> (rgb 0 0 0))) \<noteq> Fin 1"
proof -
  have "length_v binary32 (rgb (11863283 / 16777216) (11863283 / 16777216) 0) =
      Fin (16777215 / 16777216)"
    by (simp add: rgb_def length_v_def lengthSquared_def dot_def binary32_zero binary32_direction_values)
  moreover have "lengthSquared Fin (rgb (11863283 / 16777216) (11863283 / 16777216) 0) =
      Fin (140737483538089 / 140737488355328)"
    by (simp add: rgb_def lengthSquared_def dot_def)
  ultimately show ?thesis
    unfolding direction_ConeLight direction_CylinderLight
    by (simp add: binary32_diagonal_direction)
      (simp add: AmbientLight_sampleRadiance_def DirectionalLight_sampleRadiance_def
        length_v_def lengthSquared_def dot_def vec3_of_def vneg_def rgb_def)
qed

section \<open>The diffuse integrators\<close>







lemma direct_light_visible:
  "\<not> Scene_intersectAny rnd scene \<lparr>ray_o = p, ray_d = direction lightSample\<rparr> (Fin 0)
       (distanceToLight lightSample) \<Longrightarrow>
   direct_light rnd scene albedo nrm p col lightSample =
     local_light rnd albedo nrm col lightSample"
  by (simp add: direct_light_def local_light_def Let_def)

text \<open>Both integrators as one loop over the samples of the lights.\<close>

lemma DiffuseLocal_radiance_fold:
  "DiffuseLocal_radiance rnd scene ray =
     (let nearest = Scene_intersect rnd scene ray (Fin 0) INFINITY
      in if \<not> valid nearest then vec3_of (Fin 0)
         else foldl (local_light rnd (vscale rnd (color nearest) (INV_PI rnd))
                       (facing_normal rnd ray nearest))
                (vadd rnd (vec3_of (Fin 0))
                   (vmul rnd (scalev rnd (PI rnd) (vscale rnd (color nearest) (INV_PI rnd)))
                      (amb_radiance (ambientLight scene))))
                (light_samples rnd scene (pos nearest)))"
  by (simp add: DiffuseLocal_radiance_def light_samples_def Let_def foldl_map
      AmbientLight_sampleRadiance_def)

lemma DiffuseDirect_radiance_fold:
  "DiffuseDirect_radiance rnd scene ray =
     (let nearest = Scene_intersect rnd scene ray (Fin 0) INFINITY
      in if \<not> valid nearest then vec3_of (Fin 0)
         else foldl (direct_light rnd scene (vscale rnd (color nearest) (INV_PI rnd))
                       (facing_normal rnd ray nearest) (shading_point rnd scene ray))
                (vadd rnd (vec3_of (Fin 0))
                   (vmul rnd (scalev rnd (PI rnd) (vscale rnd (color nearest) (INV_PI rnd)))
                      (amb_radiance (ambientLight scene))))
                (light_samples rnd scene (shading_point rnd scene ray)))"
  by (simp add: DiffuseDirect_radiance_def light_samples_def shading_point_def Let_def
      foldl_map AmbientLight_sampleRadiance_def)

lemma foldl_direct_light_unoccluded:
  "list_all (\<lambda>lightSample.
       \<not> Scene_intersectAny rnd scene \<lparr>ray_o = p, ray_d = direction lightSample\<rparr> (Fin 0)
           (distanceToLight lightSample)) samples \<Longrightarrow>
   foldl (direct_light rnd scene albedo nrm p) col samples =
   foldl (local_light rnd albedo nrm) col samples"
  by (induction samples arbitrary: col) (simp_all add: direct_light_visible)


text \<open>
  C5, as amended. \<^verbatim>\<open>DiffuseDirectIlluminationIntegrator\<close> samples every light at
  the offset point \<open>hitPosition + EPSILON * orientedNormal\<close>, from which it also casts
  the shadow rays, and \<^verbatim>\<open>DiffuseLocalDirectIlluminationIntegrator\<close> samples it at
  the hit position. When no shadow query finds an occluder, the two integrators return
  the same value provided the samples of the lights are the same at the two points; in
  particular when the scene has no point, cone or cylinder light, since the sample of
  a directional light does not depend on the point. With a point light they differ:
  the example after the witness has one unoccluded point light two units in front of
  a sphere, where the incident radiance is \<open>1/4\<close> at the hit position and
  \<open>1/1.9999^2\<close> at the offset point.
\<close>

theorem DiffuseDirect_eq_DiffuseLocal:
  "(unoccluded rnd scene ray \<and>
    light_samples rnd scene (shading_point rnd scene ray) =
      light_samples rnd scene (pos (Scene_intersect rnd scene ray (Fin 0) INFINITY)) \<longrightarrow>
      DiffuseDirect_radiance rnd scene ray = DiffuseLocal_radiance rnd scene ray) \<and>
   (unoccluded rnd scene ray \<and> pointLights scene = [] \<and> coneLights scene = [] \<and>
    cylinderLights scene = [] \<longrightarrow>
      DiffuseDirect_radiance rnd scene ray = DiffuseLocal_radiance rnd scene ray)"
proof -
  have same: "DiffuseDirect_radiance rnd scene ray = DiffuseLocal_radiance rnd scene ray"
    if u: "unoccluded rnd scene ray"
      and s: "light_samples rnd scene (shading_point rnd scene ray) =
        light_samples rnd scene (pos (Scene_intersect rnd scene ray (Fin 0) INFINITY))"
  proof -
    let ?p = "pos (Scene_intersect rnd scene ray (Fin 0) INFINITY)"
    from u have "list_all (\<lambda>lightSample.
         \<not> Scene_intersectAny rnd scene
             \<lparr>ray_o = shading_point rnd scene ray, ray_d = direction lightSample\<rparr>
             (Fin 0) (distanceToLight lightSample))
       (light_samples rnd scene ?p)"
      by (simp only: unoccluded_def s)
    then have eq: "foldl (direct_light rnd scene albedo nrm (shading_point rnd scene ray)) col
        (light_samples rnd scene ?p) =
      foldl (local_light rnd albedo nrm) col (light_samples rnd scene ?p)" for albedo nrm col
      by (rule foldl_direct_light_unoccluded)
    show ?thesis
      by (simp only: DiffuseDirect_radiance_fold DiffuseLocal_radiance_fold Let_def s eq)
  qed
  have "light_samples rnd scene p = light_samples rnd scene p'"
    if "pointLights scene = []" "coneLights scene = []" "cylinderLights scene = []" for p p'
    using that by (simp add: light_samples_def DirectionalLight_sampleRadiance_def)
  with same show ?thesis by blast
qed

text \<open>The example scenes: one sphere, lit by a directional light or by a point light.\<close>

lemma Scene_intersect_lit_scene:
  "Scene_intersect rnd (lit_scene ss ambient pls dls) ray minT maxT =
   Scene_intersect rnd (spheres_only ss) ray minT maxT"
  by (simp add: Scene_intersect_def lit_scene_def)

lemma lit_scene_simps [simp]:
  "spheres (lit_scene ss ambient pls dls) = ss"
  "amb_radiance (ambientLight (lit_scene ss ambient pls dls)) = ambient"
  "pointLights (lit_scene ss ambient pls dls) = pls"
  "directionalLights (lit_scene ss ambient pls dls) = dls"
  "coneLights (lit_scene ss ambient pls dls) = []"
  "cylinderLights (lit_scene ss ambient pls dls) = []"
  by (simp_all add: lit_scene_def)

lemma down_ray_eq: "\<lparr>ray_o = rgb 0 0 a, ray_d = rgb 0 0 (- 1)\<rparr> = down_ray a"
  by (simp add: down_ray_def)

lemma pi_literal_pos: "0 < pi_literal"
  by (simp add: pi_literal_def)


lemma down_example_d: "sphere_d Fin (z_sphere c albedo) (down_ray a) = Fin 1"
  by (simp add: sphere_d_def z_sphere_def down_ray_def rgb_def vsub_def dot_def Let_def
      algebra_simps)

lemma down_example_b: "sphere_b Fin (z_sphere c albedo) (down_ray a) = Fin (a - c)"
  by (simp add: sphere_b_def z_sphere_def down_ray_def rgb_def vsub_def dot_def)

lemma down_example_any:
  "Scene_intersectAny Fin (lit_scene [z_sphere c albedo] ambient pls dls) (down_ray a) minT maxT
     \<longleftrightarrow> inside minT maxT (Fin (a - c - 1)) \<or> inside minT maxT (Fin (a - c + 1))"
  by (simp add: Scene_intersectAny_def lit_scene_def Sphere_intersectAny_unfold down_example_d
      sphere_t1_def sphere_t2_def down_example_b)

lemma front_hit:
  "Scene_intersect Fin (lit_scene [z_sphere 0 albedo] ambient pls dls) (z_ray (- 3)) (Fin 0)
     INFINITY =
     \<lparr>dist = Fin 2, pos = rgb 0 0 (- 1), normal = rgb 0 0 (- 1), color = albedo\<rparr>"
  unfolding Scene_intersect_lit_scene z_example_nearest by simp

lemma front_facing_normal:
  "facing_normal Fin (z_ray (- 3))
     \<lparr>dist = Fin 2, pos = rgb 0 0 (- 1), normal = rgb 0 0 (- 1), color = albedo\<rparr> =
   rgb 0 0 (- 1)"
  by (simp add: facing_normal_def z_ray_def rgb_def dot_def)

lemma front_shading_point:
  "shading_point Fin (lit_scene [z_sphere 0 albedo] ambient pls dls) (z_ray (- 3)) =
     rgb 0 0 (- 10001 / 10000)"
  unfolding shading_point_def front_hit Let_def
  by (simp add: front_facing_normal) (simp add: rgb_def vadd_def scalev_def EPSILON_def)


lemma sun_samples:
  "light_samples Fin
     (lit_scene ss ambient [] [\<lparr>dl_radiosity = rgb 1 1 1, dl_direction = rgb 0 0 1\<rparr>]) p =
   [\<lparr>radiance = rgb 1 1 1, direction = rgb 0 0 (- 1), distanceToLight = PInf\<rparr>]"
  by (simp add: light_samples_def lit_scene_def DirectionalLight_sampleRadiance_def vneg_def
      rgb_def INFINITY_def)


lemma sun_unoccluded:
  "unoccluded Fin
     (lit_scene [z_sphere 0 albedo] ambient []
        [\<lparr>dl_radiosity = rgb 1 1 1, dl_direction = rgb 0 0 1\<rparr>]) (z_ray (- 3))"
  unfolding unoccluded_def front_shading_point sun_samples
  by (simp add: down_ray_eq down_example_any inside_def)



theorem DiffuseDirect_eq_DiffuseLocal_witness:
  "unoccluded Fin
     (lit_scene [z_sphere 0 (rgb 1 1 1)] (rgb (1/2) (1/2) (1/2)) []
        [\<lparr>dl_radiosity = rgb 1 1 1, dl_direction = rgb 0 0 1\<rparr>]) (z_ray (- 3)) \<and>
   pointLights
     (lit_scene [z_sphere 0 (rgb 1 1 1)] (rgb (1/2) (1/2) (1/2)) []
        [\<lparr>dl_radiosity = rgb 1 1 1, dl_direction = rgb 0 0 1\<rparr>]) = [] \<and>
   coneLights
     (lit_scene [z_sphere 0 (rgb 1 1 1)] (rgb (1/2) (1/2) (1/2)) []
        [\<lparr>dl_radiosity = rgb 1 1 1, dl_direction = rgb 0 0 1\<rparr>]) = [] \<and>
   cylinderLights
     (lit_scene [z_sphere 0 (rgb 1 1 1)] (rgb (1/2) (1/2) (1/2)) []
        [\<lparr>dl_radiosity = rgb 1 1 1, dl_direction = rgb 0 0 1\<rparr>]) = [] \<and>
   DiffuseDirect_radiance Fin
     (lit_scene [z_sphere 0 (rgb 1 1 1)] (rgb (1/2) (1/2) (1/2)) []
        [\<lparr>dl_radiosity = rgb 1 1 1, dl_direction = rgb 0 0 1\<rparr>]) (z_ray (- 3)) =
   DiffuseLocal_radiance Fin
     (lit_scene [z_sphere 0 (rgb 1 1 1)] (rgb (1/2) (1/2) (1/2)) []
        [\<lparr>dl_radiosity = rgb 1 1 1, dl_direction = rgb 0 0 1\<rparr>]) (z_ray (- 3))"
  using DiffuseDirect_eq_DiffuseLocal [of Fin
      "lit_scene [z_sphere 0 (rgb 1 1 1)] (rgb (1/2) (1/2) (1/2)) []
        [\<lparr>dl_radiosity = rgb 1 1 1, dl_direction = rgb 0 0 1\<rparr>]" "z_ray (- 3)"]
    sun_unoccluded [of "rgb 1 1 1" "rgb (1/2) (1/2) (1/2)"]
  by simp

text \<open>A point light at the origin of the primary ray, two units in front of the sphere.\<close>

lemma sqrt_19999: "sqrt (399960001 / 100000000) = 19999 / 10000"
proof -
  have "sqrt ((19999 / 10000) * (19999 / 10000)) = \<bar>19999 / 10000 :: real\<bar>"
    by (rule real_sqrt_abs2)
  then show ?thesis by simp
qed

lemma lamp_samples_at_hit:
  "light_samples Fin
     (lit_scene ss ambient [\<lparr>pl_intensity = rgb 1 1 1, pl_origin = rgb 0 0 (- 3)\<rparr>] [])
     (rgb 0 0 (- 1)) =
   [\<lparr>radiance = rgb (1/4) (1/4) (1/4), direction = rgb 0 0 (- 1), distanceToLight = Fin 2\<rparr>]"
  by (simp add: light_samples_def lit_scene_def PointLight_sampleRadiance_def Let_def rgb_def
      vsub_def length_v_def lengthSquared_def dot_def vdivs_def)

lemma lamp_samples_at_offset:
  "light_samples Fin
     (lit_scene ss ambient [\<lparr>pl_intensity = rgb 1 1 1, pl_origin = rgb 0 0 (- 3)\<rparr>] [])
     (rgb 0 0 (- 10001 / 10000)) =
   [\<lparr>radiance = rgb (100000000 / 399960001) (100000000 / 399960001) (100000000 / 399960001),
     direction = rgb 0 0 (- 1), distanceToLight = Fin (19999 / 10000)\<rparr>]"
  by (simp add: light_samples_def lit_scene_def PointLight_sampleRadiance_def Let_def rgb_def
      vsub_def length_v_def lengthSquared_def dot_def vdivs_def sqrt_19999)

lemma lamp_unoccluded:
  "unoccluded Fin
     (lit_scene [z_sphere 0 albedo] ambient
        [\<lparr>pl_intensity = rgb 1 1 1, pl_origin = rgb 0 0 (- 3)\<rparr>] []) (z_ray (- 3))"
  unfolding unoccluded_def front_shading_point lamp_samples_at_offset
  by (simp add: down_ray_eq down_example_any inside_def)

lemma lamp_local:
  "DiffuseLocal_radiance Fin
     (lit_scene [z_sphere 0 (rgb 1 1 1)] (rgb 0 0 0)
        [\<lparr>pl_intensity = rgb 1 1 1, pl_origin = rgb 0 0 (- 3)\<rparr>] []) (z_ray (- 3)) =
   rgb (1 / (4 * pi_literal)) (1 / (4 * pi_literal)) (1 / (4 * pi_literal))"
proof -
  let ?sc = "lit_scene [z_sphere 0 (rgb 1 1 1)] (rgb 0 0 0)
        [\<lparr>pl_intensity = rgb 1 1 1, pl_origin = rgb 0 0 (- 3)\<rparr>] []"
  have "DiffuseLocal_radiance Fin ?sc (z_ray (- 3)) =
      foldl (local_light Fin (vscale Fin (rgb 1 1 1) (INV_PI Fin)) (rgb 0 0 (- 1)))
        (vadd Fin (vec3_of (Fin 0))
           (vmul Fin (scalev Fin (PI Fin) (vscale Fin (rgb 1 1 1) (INV_PI Fin))) (rgb 0 0 0)))
        (light_samples Fin ?sc (rgb 0 0 (- 1)))"
    unfolding DiffuseLocal_radiance_fold Let_def front_hit
    by (simp add: front_facing_normal valid_def INFINITY_def)
  also have "\<dots> = rgb (1 / (4 * pi_literal)) (1 / (4 * pi_literal)) (1 / (4 * pi_literal))"
    unfolding lamp_samples_at_hit using pi_literal_pos
    by (simp add: local_light_def vscale_def vmul_def scalev_def vadd_def rgb_def
        vec3_of_def dot_def max_f_def INV_PI_def PI_def)
  finally show ?thesis .
qed

lemma lamp_direct:
  "DiffuseDirect_radiance Fin
     (lit_scene [z_sphere 0 (rgb 1 1 1)] (rgb 0 0 0)
        [\<lparr>pl_intensity = rgb 1 1 1, pl_origin = rgb 0 0 (- 3)\<rparr>] []) (z_ray (- 3)) =
   rgb (100000000 / (399960001 * pi_literal)) (100000000 / (399960001 * pi_literal))
       (100000000 / (399960001 * pi_literal))"
proof -
  let ?sc = "lit_scene [z_sphere 0 (rgb 1 1 1)] (rgb 0 0 0)
        [\<lparr>pl_intensity = rgb 1 1 1, pl_origin = rgb 0 0 (- 3)\<rparr>] []"
  have "DiffuseDirect_radiance Fin ?sc (z_ray (- 3)) =
      foldl (local_light Fin (vscale Fin (rgb 1 1 1) (INV_PI Fin)) (rgb 0 0 (- 1)))
        (vadd Fin (vec3_of (Fin 0))
           (vmul Fin (scalev Fin (PI Fin) (vscale Fin (rgb 1 1 1) (INV_PI Fin))) (rgb 0 0 0)))
        (light_samples Fin ?sc (shading_point Fin ?sc (z_ray (- 3))))"
  proof -
    from lamp_unoccluded [of "rgb 1 1 1" "rgb 0 0 0"]
    have "foldl (direct_light Fin ?sc albedo nrm (shading_point Fin ?sc (z_ray (- 3)))) col
        (light_samples Fin ?sc (shading_point Fin ?sc (z_ray (- 3)))) =
      foldl (local_light Fin albedo nrm) col
        (light_samples Fin ?sc (shading_point Fin ?sc (z_ray (- 3))))" for albedo nrm col
      unfolding unoccluded_def by (rule foldl_direct_light_unoccluded)
    then show ?thesis
      unfolding DiffuseDirect_radiance_fold Let_def front_hit
      by (simp add: front_facing_normal valid_def INFINITY_def)
  qed
  also have "\<dots> = rgb (100000000 / (399960001 * pi_literal))
      (100000000 / (399960001 * pi_literal)) (100000000 / (399960001 * pi_literal))"
    unfolding front_shading_point lamp_samples_at_offset using pi_literal_pos
    by (simp add: local_light_def vscale_def vmul_def scalev_def vadd_def rgb_def
        vec3_of_def dot_def max_f_def INV_PI_def PI_def)
  finally show ?thesis .
qed

theorem offset_sampling_counterexample:
  "unoccluded Fin
     (lit_scene [z_sphere 0 (rgb 1 1 1)] (rgb 0 0 0)
        [\<lparr>pl_intensity = rgb 1 1 1, pl_origin = rgb 0 0 (- 3)\<rparr>] []) (z_ray (- 3)) \<and>
   DiffuseLocal_radiance Fin
     (lit_scene [z_sphere 0 (rgb 1 1 1)] (rgb 0 0 0)
        [\<lparr>pl_intensity = rgb 1 1 1, pl_origin = rgb 0 0 (- 3)\<rparr>] []) (z_ray (- 3)) \<noteq>
   DiffuseDirect_radiance Fin
     (lit_scene [z_sphere 0 (rgb 1 1 1)] (rgb 0 0 0)
        [\<lparr>pl_intensity = rgb 1 1 1, pl_origin = rgb 0 0 (- 3)\<rparr>] []) (z_ray (- 3))"
  unfolding lamp_local lamp_direct
  using pi_literal_pos lamp_unoccluded [of "rgb 1 1 1" "rgb 0 0 0"]
  by (simp add: rgb_def field_simps)

end
